theory Spec2Isabelle
  imports Complex_Main "HOL-Library.Sublist"
begin

section \<open>Combat Synchronizer (class CombatSynchronizer)\<close>

text \<open>
  The synchronizer is a singleton object with five private collections. Its methods are
  modelled by explicit state passing over a record of these collections. JavaScript
  numbers (timestamps, durations, health values) are idealised as real numbers; the
  two reads of the environment a method performs, \<^verbatim>\<open>Date.now()\<close> and the private
  field \<^verbatim>\<open>combatAI['combatState']\<close> of the collaborator, are parameters.

  A completion callback is an opaque function of the caller. It is represented by an
  identifier, and calling it is recorded in the trace \<open>calls\<close> of the state, together
  with the other call the synchronizer makes to the outside, \<^verbatim>\<open>combatAI.startCombat\<close>.
  A callback returns or throws; which callbacks throw during one execution of the update
  handler is a parameter of that execution. Callbacks are assumed not to call back into
  the synchronizer.
\<close>

record RealCombatant =
  cid :: string
  health :: real

record RealCombatState =
  victory :: "bool option"
  startTime :: real
  combatants :: "RealCombatant list"

text \<open>An entry of the map \<^verbatim>\<open>activeCombats\<close>; \<open>combatAI\<close> is the identity of the collaborator object.\<close>

record 'm combat_data =
  combatAI :: nat
  mission :: 'm
  isComplete :: bool
  actualDuration :: real
  startedAt :: real

text \<open>An entry of the map \<^verbatim>\<open>finalResults\<close>.\<close>

record final_result =
  fr_victory :: bool
  fr_actualDuration :: real
  finalHealths :: "string \<rightharpoonup> real"

datatype call =
  StartCombat string nat
| Callback nat bool real

record 'm synchronizer =
  activeCombats :: "string \<rightharpoonup> 'm combat_data"
  completedCombats :: "string set"
  finalResults :: "string \<rightharpoonup> final_result"
  combatLocks :: "string set"
  missionCompletionCallbacks :: "string \<rightharpoonup> nat list"
  calls :: "call list"

definition initial :: "'m synchronizer" where
  "initial = \<lparr> activeCombats = Map.empty, completedCombats = {}, finalResults = Map.empty,
      combatLocks = {}, missionCompletionCallbacks = Map.empty, calls = [] \<rparr>"

text \<open>\<^verbatim>\<open>combatants.forEach(c => { finalHealths[c.id] = c.health })\<close> on an empty object.\<close>

definition collectHealths :: "RealCombatant list \<Rightarrow> (string \<rightharpoonup> real)" where
  "collectHealths cs = fold (\<lambda>c fh. fh(cid c \<mapsto> health c)) cs Map.empty"

text \<open>\<^verbatim>\<open>this.missionCompletionCallbacks.get(missionId) || []\<close>\<close>

definition callbacksOf :: "'m synchronizer \<Rightarrow> string \<Rightarrow> nat list" where
  "callbacksOf s missionId =
     (case missionCompletionCallbacks s missionId of None \<Rightarrow> [] | Some cbs \<Rightarrow> cbs)"

text \<open>
  \<^verbatim>\<open>callbacks.forEach(callback => callback(state.victory, actualDuration))\<close>: the calls
  made, and whether one of them threw. \<open>throwing\<close> lists the callbacks that throw when
  called; the first of them ends the loop, and the exception leaves the handler.
\<close>

fun forEachCallback :: "nat list \<Rightarrow> bool \<Rightarrow> real \<Rightarrow> nat list \<Rightarrow> call list \<times> bool" where
  "forEachCallback throwing v d [] = ([], False)"
| "forEachCallback throwing v d (callback # callbacks) =
     (if callback \<in> set throwing then ([Callback callback v d], True)
      else (let (made, threw) = forEachCallback throwing v d callbacks
            in (Callback callback v d # made, threw)))"

text \<open>
  The handler that \<^verbatim>\<open>startSynchronizedCombat\<close> subscribes with \<^verbatim>\<open>combatAI.onUpdate\<close>. The
  closure captures \<open>missionId\<close> only; \<open>now\<close> is \<^verbatim>\<open>Date.now()\<close> and \<open>state\<close> the snapshot the
  collaborator passes. The result is the state the handler leaves and whether it threw:
  there is no \<^verbatim>\<open>try\<close> around the calls of the listeners, so when one throws the
  clean-up after the loop is not executed.
\<close>

definition onUpdate ::
    "string \<Rightarrow> real \<Rightarrow> RealCombatState \<Rightarrow> nat list \<Rightarrow> 'm synchronizer \<Rightarrow> 'm synchronizer \<times> bool" where
  "onUpdate missionId now state throwing s =
     (case activeCombats s missionId of
        None \<Rightarrow> (s, False)
      | Some combatData \<Rightarrow>
          (case victory state of
             None \<Rightarrow> (s, False)
           | Some v \<Rightarrow>
               let duration = (now - startTime state) / 1000;
                   s1 = s\<lparr>activeCombats := (activeCombats s)(missionId \<mapsto>
                          combatData\<lparr>isComplete := True, actualDuration := duration\<rparr>)\<rparr>;
                   fh = collectHealths (combatants state);
                   s2 = s1\<lparr>finalResults := (finalResults s1)(missionId \<mapsto>
                          \<lparr>fr_victory = v, fr_actualDuration = duration, finalHealths = fh\<rparr>)\<rparr>;
                   callbacks = callbacksOf s2 missionId;
                   (made, threw) = forEachCallback throwing v duration callbacks;
                   s3 = s2\<lparr>calls := calls s2 @ made\<rparr>
               in if threw then (s3, True)
                  else
                    let s4 = s3\<lparr>activeCombats := (activeCombats s3)(missionId := None)\<rparr>;
                        s5 = s4\<lparr>missionCompletionCallbacks :=
                               (missionCompletionCallbacks s4)(missionId := None)\<rparr>;
                        s6 = s5\<lparr>completedCombats := insert missionId (completedCombats s5)\<rparr>
                    in (s6\<lparr>combatLocks := combatLocks s6 - {missionId}\<rparr>, False)))"

text \<open>
  The updates the collaborator delivers to the handler from inside \<^verbatim>\<open>startCombat\<close>, each
  with the clock reading at its delivery and the callbacks that throw during it. An
  exception of the handler is taken to leave \<^verbatim>\<open>startCombat\<close> as well.
\<close>

fun deliver ::
    "string \<Rightarrow> (real \<times> RealCombatState \<times> nat list) list \<Rightarrow> 'm synchronizer \<Rightarrow>
     'm synchronizer \<times> bool" where
  "deliver missionId [] s = (s, False)"
| "deliver missionId ((t, state, throwing) # updates) s =
     (let (s', threw) = onUpdate missionId t state throwing s
      in if threw then (s', True) else deliver missionId updates s')"

text \<open>
  \<^verbatim>\<open>combatAI.startCombat(squad, enemies, mission)\<close>: the call is recorded, and the collaborator
  may deliver updates to the subscribed handler before it returns; \<open>updates\<close> lists them,
  empty when the collaborator only reports asynchronously.
\<close>

definition startCombat ::
    "string \<Rightarrow> nat \<Rightarrow> (real \<times> RealCombatState \<times> nat list) list \<Rightarrow> 'm synchronizer \<Rightarrow>
     'm synchronizer \<times> bool" where
  "startCombat missionId ai updates s =
     deliver missionId updates (s\<lparr>calls := calls s @ [StartCombat missionId ai]\<rparr>)"

text \<open>
  \<open>ai\<close> is the object \<^verbatim>\<open>new EnhancedRealCombatAI()\<close> creates, \<open>now\<close> the value of
  \<^verbatim>\<open>Date.now()\<close> stored in \<open>startedAt\<close>. The rosters are only handed to the collaborator.
  When \<^verbatim>\<open>startCombat\<close> throws, the session is not stored.
\<close>

definition startSynchronizedCombat ::
    "string \<Rightarrow> nat \<Rightarrow> 'm \<Rightarrow> real \<Rightarrow> (real \<times> RealCombatState \<times> nat list) list \<Rightarrow>
     'm synchronizer \<Rightarrow> 'm synchronizer" where
  "startSynchronizedCombat missionId ai m now updates s =
     (if missionId \<in> completedCombats s then s
      else if missionId \<in> combatLocks s then s
      else if (case activeCombats s missionId of
                 None \<Rightarrow> False | Some existing \<Rightarrow> \<not> isComplete existing) then s
      else
        let s1 = s\<lparr>combatLocks := insert missionId (combatLocks s)\<rparr>;
            (s2, threw) = startCombat missionId ai updates s1
        in if threw then s2
           else s2\<lparr>activeCombats := (activeCombats s2)(missionId \<mapsto>
                  \<lparr>combatAI = ai, mission = m, isComplete = False, actualDuration = 0,
                   startedAt = now\<rparr>)\<rparr>)"

definition isCombatActive :: "'m synchronizer \<Rightarrow> string \<Rightarrow> bool" where
  "isCombatActive s missionId =
     (let isActive = (case activeCombats s missionId of
                        None \<Rightarrow> False | Some combatData \<Rightarrow> \<not> isComplete combatData);
          isLocked = (missionId \<in> combatLocks s)
      in isActive \<or> isLocked)"

definition onCombatComplete :: "string \<Rightarrow> nat \<Rightarrow> 'm synchronizer \<Rightarrow> 'm synchronizer" where
  "onCombatComplete missionId callback s =
     s\<lparr>missionCompletionCallbacks :=
         (missionCompletionCallbacks s)(missionId \<mapsto> callbacksOf s missionId @ [callback])\<rparr>"

definition getActualCombatDuration :: "'m synchronizer \<Rightarrow> string \<Rightarrow> real option" where
  "getActualCombatDuration s missionId =
     (case activeCombats s missionId of
        None \<Rightarrow> None
      | Some combatData \<Rightarrow> if isComplete combatData then Some (actualDuration combatData) else None)"

text \<open>
  \<^verbatim>\<open>(Date.now() - combatData.combatAI['combatState']?.startTime || Date.now()) / 1000\<close>:
  the subtraction binds tighter than \<^verbatim>\<open>||\<close>, so the clock is taken when the difference
  is \<^verbatim>\<open>NaN\<close> (no combat state) or zero.
\<close>

definition forcedDuration :: "real \<Rightarrow> RealCombatState option \<Rightarrow> real" where
  "forcedDuration now combatState =
     (case combatState of
        None \<Rightarrow> now
      | Some st \<Rightarrow> if now - startTime st = 0 then now else now - startTime st) / 1000"

text \<open>\<open>combatState\<close> is the value of \<^verbatim>\<open>combatData.combatAI['combatState']\<close> at the call.\<close>

definition forceCombatEnd ::
    "string \<Rightarrow> real \<Rightarrow> RealCombatState option \<Rightarrow> 'm synchronizer \<Rightarrow> 'm synchronizer" where
  "forceCombatEnd missionId now combatState s =
     (case activeCombats s missionId of
        None \<Rightarrow> s
      | Some combatData \<Rightarrow>
          if isComplete combatData then s
          else
            let duration = forcedDuration now combatState;
                s1 = s\<lparr>activeCombats := (activeCombats s)(missionId \<mapsto>
                       combatData\<lparr>isComplete := True, actualDuration := duration\<rparr>)\<rparr>;
                fh = (case combatState of None \<Rightarrow> Map.empty
                      | Some endState \<Rightarrow> collectHealths (combatants endState));
                s2 = s1\<lparr>finalResults := (finalResults s1)(missionId \<mapsto>
                       \<lparr>fr_victory = False, fr_actualDuration = duration, finalHealths = fh\<rparr>)\<rparr>;
                s3 = s2\<lparr>activeCombats := (activeCombats s2)(missionId := None)\<rparr>;
                s4 = s3\<lparr>missionCompletionCallbacks := (missionCompletionCallbacks s3)(missionId := None)\<rparr>;
                s5 = s4\<lparr>completedCombats := insert missionId (completedCombats s4)\<rparr>
            in s5\<lparr>combatLocks := combatLocks s5 - {missionId}\<rparr>)"

definition getCombatResults :: "'m synchronizer \<Rightarrow> string \<Rightarrow> final_result option" where
  "getCombatResults s missionId = finalResults s missionId"

subsection \<open>Runs of the synchronizer\<close>

text \<open>
  Handlers run one at a time (single-threaded event loop), so the states between handler
  executions are those reached from \<open>initial\<close> by a sequence of method calls and update
  deliveries. \<open>Update\<close> is an asynchronous delivery to the handler subscribed for a
  mission, with the callbacks that throw during it; the state it leaves is the state
  between handler executions, whether the handler returned or threw.
\<close>

datatype 'm op =
  Start string nat 'm real "(real \<times> RealCombatState \<times> nat list) list"
| Update string real RealCombatState "nat list"
| Register string nat
| ForceEnd string real "RealCombatState option"

fun exec :: "'m op \<Rightarrow> 'm synchronizer \<Rightarrow> 'm synchronizer" where
  "exec (Start missionId ai m now updates) s = startSynchronizedCombat missionId ai m now updates s"
| "exec (Update missionId now state throwing) s = fst (onUpdate missionId now state throwing s)"
| "exec (Register missionId callback) s = onCombatComplete missionId callback s"
| "exec (ForceEnd missionId now combatState) s = forceCombatEnd missionId now combatState s"

definition run :: "'m op list \<Rightarrow> 'm synchronizer \<Rightarrow> 'm synchronizer" where
  "run ops s = fold exec ops s"

inductive reachable :: "'m synchronizer \<Rightarrow> bool" where
  init: "reachable initial"
| step: "reachable s \<Longrightarrow> reachable (exec op s)"

text \<open>Bookkeeping for the proofs: the calls to \<^verbatim>\<open>startCombat\<close> made for a mission.\<close>

fun startedFor :: "string \<Rightarrow> call \<Rightarrow> bool" where
  "startedFor missionId (StartCombat m ai) = (m = missionId)"
| "startedFor missionId (Callback cb v d) = False"

text \<open>The callbacks a run registers for a mission, in order.\<close>

fun registeredBy :: "string \<Rightarrow> 'm op \<Rightarrow> nat list" where
  "registeredBy missionId (Register m callback) = (if m = missionId then [callback] else [])"
| "registeredBy missionId _ = []"

definition registered :: "string \<Rightarrow> 'm op list \<Rightarrow> nat list" where
  "registered missionId ops = concat (map (registeredBy missionId) ops)"

text \<open>
  The operations that can end the session of a mission: a forced end, and the delivery of
  an update whose \<open>victory\<close> is not null.
\<close>

fun ending :: "string \<Rightarrow> 'm op \<Rightarrow> bool" where
  "ending missionId (ForceEnd m now combatState) = (m = missionId)"
| "ending missionId (Update m now state throwing) = (m = missionId \<and> victory state \<noteq> None)"
| "ending missionId (Start m ai mi now updates) = False"
| "ending missionId (Register m callback) = False"

text \<open>An operation in which no listener throws.\<close>

fun quiet :: "'m op \<Rightarrow> bool" where
  "quiet (Update m now state throwing) = (throwing = [])"
| "quiet (Start m ai mi now updates) = list_all (\<lambda>(t, state, throwing). throwing = []) updates"
| "quiet (Register m callback) = True"
| "quiet (ForceEnd m now combatState) = True"

text \<open>
  The states \<^verbatim>\<open>startSynchronizedCombat\<close> goes through on the path that starts a combat:
  after the lock is taken, after the call to the collaborator and each update it
  delivers before returning, and the state at the return.
\<close>

definition startTrace ::
    "string \<Rightarrow> nat \<Rightarrow> 'm \<Rightarrow> real \<Rightarrow> (real \<times> RealCombatState \<times> nat list) list \<Rightarrow>
     'm synchronizer \<Rightarrow> 'm synchronizer list" where
  "startTrace missionId ai m now updates s =
     (let s1 = s\<lparr>combatLocks := insert missionId (combatLocks s)\<rparr>;
          during = map (\<lambda>k. fst (startCombat missionId ai (take k updates) s1))
                     [0 ..< Suc (length updates)];
          (s2, threw) = startCombat missionId ai updates s1
      in s1 # during @
         [if threw then s2
          else s2\<lparr>activeCombats := (activeCombats s2)(missionId \<mapsto>
               \<lparr>combatAI = ai, mission = m, isComplete = False, actualDuration = 0,
                startedAt = now\<rparr>)\<rparr>])"

text \<open>
  The invariant of the states between handler executions: a mission is locked exactly
  when it has a stored session, a completed mission has a final result and no stored
  session, a final result belongs to a completed mission or to a stored session, and a
  mission whose combat was started is locked or completed and was started once.
\<close>

definition sync_inv :: "'m synchronizer \<Rightarrow> bool" where
  "sync_inv s \<longleftrightarrow>
     (\<forall>missionId. missionId \<in> combatLocks s \<longleftrightarrow> activeCombats s missionId \<noteq> None) \<and>
     (\<forall>missionId. missionId \<in> completedCombats s \<longrightarrow> finalResults s missionId \<noteq> None) \<and>
     (\<forall>missionId. finalResults s missionId \<noteq> None \<longrightarrow>
        missionId \<in> completedCombats s \<or> activeCombats s missionId \<noteq> None) \<and>
     (\<forall>missionId. missionId \<in> completedCombats s \<longrightarrow> activeCombats s missionId = None) \<and>
     (\<forall>missionId. filter (startedFor missionId) (calls s) \<noteq> [] \<longrightarrow>
        missionId \<in> combatLocks s \<or> missionId \<in> completedCombats s) \<and>
     (\<forall>missionId. length (filter (startedFor missionId) (calls s)) \<le> 1)"

text \<open>No stored session is complete.\<close>

definition all_live :: "'m synchronizer \<Rightarrow> bool" where
  "all_live s \<longleftrightarrow> (\<forall>missionId c. activeCombats s missionId = Some c \<longrightarrow> \<not> isComplete c)"

section \<open>Universal combat formula (UniversalCombatFormula.ts)\<close>

text \<open>
  JavaScript numbers are idealised as real numbers, so \<^verbatim>\<open>NaN\<close> and the infinities are
  not represented. The modules \<^verbatim>\<open>CoreStatMapper\<close> and \<^verbatim>\<open>WeaponNormalizer\<close> are imported
  by the file; their functions \<open>mapCoreStats10\<close> and \<open>normalizeWeaponFromItem\<close> are
  parameters of the model. The entries of the two rosters are objects, modelled as
  records whose optional fields are options.
\<close>

record CoreStats10 =
  combatLevel :: real
  combatDamageMultiplier :: real
  intelligence :: real
  survival :: real

record NormalizedWeapon =
  w_category :: string
  w_damage :: real
  w_rpm :: real
  w_swingSpeed :: real
  w_accuracy :: real
  w_reliability :: real

text \<open>The argument of \<open>normalizeWeaponFromItem\<close>: undefined, an item id, or an item object.\<close>

datatype item = Undefined | ItemId string | ItemObject nat

text \<open>A squad member: \<^verbatim>\<open>member?.equipment?.weapon\<close> and whatever else \<open>mapCoreStats10\<close> reads.\<close>

record 'a member =
  equipment_weapon :: item
  attributes :: 'a

text \<open>
  \<^verbatim>\<open>enemy.weapon\<close> is a string, an object with optional \<^verbatim>\<open>fireRate\<close> and \<^verbatim>\<open>damage\<close>, or
  anything else (absent, null).
\<close>

datatype enemy_weapon = NoWeapon | WeaponId string | InlineWeapon "real option" "real option"

record enemy =
  e_accuracy :: "real option"
  e_damage :: "real option"
  e_health :: "real option"
  e_weapon :: enemy_weapon

record UniversalCombatResult =
  estimatedDuration :: real
  powerRatio :: real
  squadDps :: real
  enemyDps :: real
  totalEnemyHealth :: real
  difficultyModifier :: real
  travelMinutes :: real

definition clamp :: "real \<Rightarrow> real \<Rightarrow> real \<Rightarrow> real" where
  "clamp v lo hi = max lo (min hi v)"

text \<open>\<^verbatim>\<open>a ?? b\<close>\<close>

definition orDefault :: "'a option \<Rightarrow> 'a \<Rightarrow> 'a" where
  "orDefault a b = (case a of None \<Rightarrow> b | Some x \<Rightarrow> x)"

definition computeMemberDps ::
    "('a member \<Rightarrow> CoreStats10) \<Rightarrow> (item \<Rightarrow> NormalizedWeapon option) \<Rightarrow> 'a member \<Rightarrow> real" where
  "computeMemberDps mapCoreStats10 normalizeWeaponFromItem mem =
     (let core = mapCoreStats10 mem
      in case normalizeWeaponFromItem (equipment_weapon mem) of
           None \<Rightarrow>
             (let baseDps = 0.2 + combatLevel core * 0.25
              in baseDps * combatDamageMultiplier core)
         | Some w \<Rightarrow>
             if w_category w = ''gun'' then
               (let shotsPerSec = w_rpm w / 60; acc = w_accuracy w / 100; rel = w_reliability w / 100
                in w_damage w * shotsPerSec * acc * rel * combatDamageMultiplier core)
             else
               (let swingsPerSec = w_swingSpeed w / 60; acc = w_accuracy w / 100;
                    rel = w_reliability w / 100
                in w_damage w * swingsPerSec * acc * rel * combatDamageMultiplier core))"

text \<open>The four mutable locals \<^verbatim>\<open>acc\<close>, \<^verbatim>\<open>rpm\<close>, \<^verbatim>\<open>dmg\<close>, \<^verbatim>\<open>rel\<close> as a tuple.\<close>

definition computeEnemyDps :: "(item \<Rightarrow> NormalizedWeapon option) \<Rightarrow> enemy \<Rightarrow> real" where
  "computeEnemyDps normalizeWeaponFromItem e =
     (let acc0 = orDefault (e_accuracy e) 60 / 100;
          rpm0 = 30;
          dmg0 = orDefault (e_damage e) 10;
          rel0 = 0.75;
          (acc, rpm, dmg, rel) =
            (case e_weapon e of
               WeaponId wid \<Rightarrow>
                 (case normalizeWeaponFromItem (ItemId wid) of
                    None \<Rightarrow> (acc0, rpm0, dmg0, rel0)
                  | Some w \<Rightarrow>
                      if w_category w = ''gun'' then
                        (w_accuracy w / 100, w_rpm w, w_damage w, w_reliability w / 100)
                      else if w_category w = ''melee'' then
                        (w_accuracy w / 100, w_swingSpeed w, w_damage w, w_reliability w / 100)
                      else (acc0, rpm0, dmg0, rel0))
             | InlineWeapon fireRate wdamage \<Rightarrow>
                 (acc0, orDefault fireRate 1 * 20, orDefault wdamage dmg0, rel0)
             | NoWeapon \<Rightarrow> (acc0, rpm0, dmg0, rel0));
          perSec = (rpm / 60) * acc * rel
      in max 0.5 (dmg * perSec))"

text \<open>\<^verbatim>\<open>xs.reduce((s, x) => s + f(x), 0)\<close>\<close>

definition reduceSum :: "('a \<Rightarrow> real) \<Rightarrow> 'a list \<Rightarrow> real" where
  "reduceSum f xs = foldl (\<lambda>s x. s + f x) 0 xs"

text \<open>Lines 78 to 82.\<close>

definition squadDpsOf ::
    "('a member \<Rightarrow> CoreStats10) \<Rightarrow> (item \<Rightarrow> NormalizedWeapon option) \<Rightarrow> 'a member list \<Rightarrow> real" where
  "squadDpsOf mapCoreStats10 normalizeWeaponFromItem squadMembers =
     max 0.5 (reduceSum (computeMemberDps mapCoreStats10 normalizeWeaponFromItem) squadMembers)"

definition enemyDpsOf :: "(item \<Rightarrow> NormalizedWeapon option) \<Rightarrow> enemy list \<Rightarrow> real" where
  "enemyDpsOf normalizeWeaponFromItem enemies =
     max 0.5 (reduceSum (computeEnemyDps normalizeWeaponFromItem) enemies)"

definition totalEnemyHealthOf :: "enemy list \<Rightarrow> real" where
  "totalEnemyHealthOf enemies = reduceSum (\<lambda>e. orDefault (e_health e) 40 * 30) enemies"

text \<open>\<^verbatim>\<open>Math.pow(Math.max(1, difficulty || 1), 1.5)\<close>: zero is falsy.\<close>

definition difficultyMultiplierOf :: "real \<Rightarrow> real" where
  "difficultyMultiplierOf difficulty =
     (max 1 (if difficulty = 0 then 1 else difficulty)) powr 1.5"

definition powerRatioOf :: "real \<Rightarrow> real \<Rightarrow> real" where
  "powerRatioOf sDps eDps = sDps / max eDps 0.5"

text \<open>Lines 85 to 95: the value of \<^verbatim>\<open>adjustedCombat\<close> after the power ratio adjustment.\<close>

definition adjustedCombatOf :: "real \<Rightarrow> real \<Rightarrow> real \<Rightarrow> real \<Rightarrow> real" where
  "adjustedCombatOf sDps eDps totalHealth difficulty =
     (let baseCombatSeconds = totalHealth / sDps;
          difficultyMultiplier = difficultyMultiplierOf difficulty;
          pr = powerRatioOf sDps eDps;
          adjustedCombat = baseCombatSeconds * difficultyMultiplier
      in if pr > 2 then adjustedCombat * 0.6
         else if pr < 0.5 then adjustedCombat * 2.5
         else adjustedCombat * 1.2)"

text \<open>\<^verbatim>\<open>toLowerCase\<close> on the ASCII letters; \<^verbatim>\<open>includes\<close> is the contiguous sublist test.\<close>

definition lowerChar :: "char \<Rightarrow> char" where
  "lowerChar c = (let n = (of_char c :: nat) in if 65 \<le> n \<and> n \<le> 90 then char_of (n + 32) else c)"

definition toLowerCase :: "string \<Rightarrow> string" where
  "toLowerCase str = map lowerChar str"

definition str_includes :: "string \<Rightarrow> string \<Rightarrow> bool" where
  "str_includes str key = sublist key str"

definition terrainFactorOf :: "string \<Rightarrow> real" where
  "terrainFactorOf location =
     (let loc = toLowerCase location
      in if str_includes loc ''junction'' then 1.6
         else if str_includes loc ''complex'' then 1.5
         else if str_includes loc ''valley'' then 1.4
         else 1.3)"

definition subFactorOf :: "string option \<Rightarrow> real" where
  "subFactorOf subTerrain =
     (let st = toLowerCase (orDefault subTerrain [])
      in if str_includes st ''alleys'' then 1.2
         else if str_includes st ''tunnel'' then 1.4
         else if str_includes st ''canyon'' then 1.3
         else if str_includes st ''dunes'' then 1.25
         else if str_includes st ''salt'' then 0.9
         else if str_includes st ''marsh'' then 1.25
         else if str_includes st ''ruins'' then 1.15
         else 1.0)"

text \<open>\<^verbatim>\<open>Math.round\<close>: the nearest integer, a half rounded up.\<close>

definition Math_round :: "real \<Rightarrow> real" where
  "Math_round x = of_int \<lfloor>x + 1 / 2\<rfloor>"

text \<open>Lines 98 to 106: the pair \<^verbatim>\<open>(avgInt, avgSurv)\<close>.\<close>

definition avgCoreOf :: "('a member \<Rightarrow> CoreStats10) \<Rightarrow> 'a member list \<Rightarrow> real \<times> real" where
  "avgCoreOf mapCoreStats10 squadMembers =
     (let (sumInt, sumSurv) =
            (if length squadMembers \<noteq> 0 then
               foldl (\<lambda>(ai, as) c. (ai + intelligence c, as + survival c)) (0, 0)
                 (map mapCoreStats10 squadMembers)
             else (5, 5));
          denom = max 1 (real (length squadMembers))
      in (sumInt / denom, sumSurv / denom))"

text \<open>Lines 108 to 123: the product that is rounded.\<close>

definition travelProductOf ::
    "('a member \<Rightarrow> CoreStats10) \<Rightarrow> 'a member list \<Rightarrow> real \<Rightarrow> string \<Rightarrow> string option \<Rightarrow> real" where
  "travelProductOf mapCoreStats10 squadMembers difficulty location subTerrain =
     (let (avgInt, avgSurv) = avgCoreOf mapCoreStats10 squadMembers;
          baseTravel = 30 + difficulty * 10;
          terrainFactor = terrainFactorOf location;
          subFactor = subFactorOf subTerrain;
          reduction = 1 - (avgInt / 10) * 0.2 - (avgSurv / 10) * 0.2
      in baseTravel * terrainFactor * subFactor * max 0.6 reduction)"

text \<open>Line 124.\<close>

definition travelMinutesOf ::
    "('a member \<Rightarrow> CoreStats10) \<Rightarrow> 'a member list \<Rightarrow> real \<Rightarrow> string \<Rightarrow> string option \<Rightarrow> real" where
  "travelMinutesOf mapCoreStats10 squadMembers difficulty location subTerrain =
     clamp (Math_round (travelProductOf mapCoreStats10 squadMembers difficulty location subTerrain)) 9 600"

definition calculateUniversalCombatDuration ::
    "('a member \<Rightarrow> CoreStats10) \<Rightarrow> (item \<Rightarrow> NormalizedWeapon option) \<Rightarrow>
     'a member list \<Rightarrow> enemy list \<Rightarrow> real \<Rightarrow> string \<Rightarrow> string option \<Rightarrow> UniversalCombatResult" where
  "calculateUniversalCombatDuration mapCoreStats10 normalizeWeaponFromItem
       squadMembers enemies difficulty location subTerrain =
     (let sDps = squadDpsOf mapCoreStats10 normalizeWeaponFromItem squadMembers;
          eDps = enemyDpsOf normalizeWeaponFromItem enemies;
          totalHealth = totalEnemyHealthOf enemies;
          adjustedCombat = adjustedCombatOf sDps eDps totalHealth difficulty;
          tm = travelMinutesOf mapCoreStats10 squadMembers difficulty location subTerrain;
          totalSeconds = adjustedCombat + tm * 60
      in \<lparr> estimatedDuration = totalSeconds,
           powerRatio = powerRatioOf sDps eDps,
           squadDps = sDps,
           enemyDps = eDps,
           totalEnemyHealth = totalHealth,
           difficultyModifier = difficultyMultiplierOf difficulty,
           travelMinutes = tm \<rparr>)"

subsection \<open>Inputs for evaluating the formula\<close>

text \<open>
  A core stat mapper that gives every member combat level 10, damage multiplier 2 and
  intelligence and survival 5, a weapon normalizer that knows no item, an unarmed member,
  and an enemy with the given health and damage and no weapon.
\<close>

definition levelTenStats :: "unit member \<Rightarrow> CoreStats10" where
  "levelTenStats mem =
     \<lparr>combatLevel = 10, combatDamageMultiplier = 2, intelligence = 5, survival = 5\<rparr>"

definition noWeapons :: "item \<Rightarrow> NormalizedWeapon option" where
  "noWeapons it = None"

definition unarmedMember :: "unit member" where
  "unarmedMember = \<lparr>equipment_weapon = Undefined, attributes = ()\<rparr>"


section \<open>Properties of the synchronizer\<close>

subsection \<open>The invariant\<close>

lemma forEachCallback_no_throw:
  "set throwing \<inter> set callbacks = {} \<Longrightarrow>
   forEachCallback throwing v d callbacks = (map (\<lambda>callback. Callback callback v d) callbacks, False)"
  by (induction callbacks) auto

lemma forEachCallback_not_started:
  "filter (startedFor missionId) (fst (forEachCallback throwing v d callbacks)) = []"
  by (induction callbacks) (auto simp: split_beta)

lemma onUpdate_absent:
  "activeCombats s missionId = None \<Longrightarrow> onUpdate missionId now state throwing s = (s, False)"
  by (simp add: onUpdate_def)

lemma deliver_absent:
  "activeCombats s missionId = None \<Longrightarrow> deliver missionId updates s = (s, False)"
  by (induction updates) (auto simp: onUpdate_absent)

lemma startCombat_absent:
  "activeCombats s missionId = None \<Longrightarrow>
   startCombat missionId ai updates s = (s\<lparr>calls := calls s @ [StartCombat missionId ai]\<rparr>, False)"
  by (simp add: startCombat_def deliver_absent)

lemma sync_inv_absent:
  "sync_inv s \<Longrightarrow> missionId \<notin> combatLocks s \<Longrightarrow> activeCombats s missionId = None"
  by (auto simp: sync_inv_def)

lemma start_skip:
  "missionId \<in> completedCombats s \<or> isCombatActive s missionId \<Longrightarrow>
   startSynchronizedCombat missionId ai m now updates s = s"
  by (auto simp: startSynchronizedCombat_def isCombatActive_def)

lemma start_new:
  assumes "sync_inv s" "missionId \<notin> completedCombats s" "\<not> isCombatActive s missionId"
  shows "startSynchronizedCombat missionId ai m now updates s =
      s\<lparr>combatLocks := insert missionId (combatLocks s),
        calls := calls s @ [StartCombat missionId ai],
        activeCombats := (activeCombats s)(missionId \<mapsto>
               \<lparr>combatAI = ai, mission = m, isComplete = False, actualDuration = 0,
                startedAt = now\<rparr>)\<rparr>"
proof -
  from assms have l: "missionId \<notin> combatLocks s" by (simp add: isCombatActive_def)
  with assms have a: "activeCombats s missionId = None" by (simp add: sync_inv_absent)
  show ?thesis using assms l a
    by (simp add: startSynchronizedCombat_def Let_def startCombat_absent)
qed

lemma sync_inv_initial: "sync_inv initial"
  by (simp add: sync_inv_def initial_def)

text \<open>The two ways the handler changes the state of a mission with a stored session.\<close>

lemma onUpdate_cases:
  assumes "activeCombats s missionId = Some c" "victory state = Some v"
  obtains (threw) made where
      "onUpdate missionId now state throwing s =
         (s\<lparr>activeCombats := (activeCombats s)(missionId \<mapsto>
                c\<lparr>isComplete := True, actualDuration := (now - startTime state) / 1000\<rparr>),
             finalResults := (finalResults s)(missionId \<mapsto>
                \<lparr>fr_victory = v, fr_actualDuration = (now - startTime state) / 1000,
                 finalHealths = collectHealths (combatants state)\<rparr>),
             calls := calls s @ made\<rparr>, True)"
      "made = fst (forEachCallback throwing v ((now - startTime state) / 1000) (callbacksOf s missionId))"
      "snd (forEachCallback throwing v ((now - startTime state) / 1000) (callbacksOf s missionId))"
  | (returned) made where
      "onUpdate missionId now state throwing s =
         (s\<lparr>finalResults := (finalResults s)(missionId \<mapsto>
                \<lparr>fr_victory = v, fr_actualDuration = (now - startTime state) / 1000,
                 finalHealths = collectHealths (combatants state)\<rparr>),
             calls := calls s @ made,
             activeCombats := (activeCombats s)(missionId := None),
             missionCompletionCallbacks := (missionCompletionCallbacks s)(missionId := None),
             completedCombats := insert missionId (completedCombats s),
             combatLocks := combatLocks s - {missionId}\<rparr>, False)"
      "made = fst (forEachCallback throwing v ((now - startTime state) / 1000) (callbacksOf s missionId))"
      "\<not> snd (forEachCallback throwing v ((now - startTime state) / 1000) (callbacksOf s missionId))"
proof (cases "snd (forEachCallback throwing v ((now - startTime state) / 1000) (callbacksOf s missionId))")
  case True
  with assms show ?thesis
    by (intro threw [of "fst (forEachCallback throwing v ((now - startTime state) / 1000)
          (callbacksOf s missionId))"])
       (simp_all add: onUpdate_def Let_def callbacksOf_def split_beta)
next
  case False
  with assms show ?thesis
    by (intro returned [of "fst (forEachCallback throwing v ((now - startTime state) / 1000)
          (callbacksOf s missionId))"])
       (simp_all add: onUpdate_def Let_def callbacksOf_def split_beta)
qed

lemma sync_inv_onUpdate:
  assumes i: "sync_inv s"
  shows "sync_inv (fst (onUpdate missionId now state throwing s))"
proof (cases "activeCombats s missionId")
  case None
  then show ?thesis using i by (simp add: onUpdate_absent)
next
  case (Some c)
  show ?thesis
  proof (cases "victory state")
    case None
    then show ?thesis using i Some by (simp add: onUpdate_def)
  next
    case (Some v)
    from \<open>activeCombats s missionId = Some c\<close> Some show ?thesis
    proof (cases rule: onUpdate_cases [where now = now and throwing = throwing])
      case (threw made)
      have n: "filter (startedFor x) made = []" for x
        unfolding threw(2) by (rule forEachCallback_not_started)
      show ?thesis unfolding threw(1) using i \<open>activeCombats s missionId = Some c\<close> n
        unfolding sync_inv_def by (auto split: if_splits)
    next
      case (returned made)
      have n: "filter (startedFor x) made = []" for x
        unfolding returned(2) by (rule forEachCallback_not_started)
      show ?thesis unfolding returned(1) using i \<open>activeCombats s missionId = Some c\<close> n
        unfolding sync_inv_def by (auto split: if_splits)
    qed
  qed
qed

lemma sync_inv_forceCombatEnd: "sync_inv s \<Longrightarrow> sync_inv (forceCombatEnd missionId now cs s)"
  unfolding sync_inv_def forceCombatEnd_def Let_def
  by (auto split: option.splits)

lemma sync_inv_onCombatComplete: "sync_inv s \<Longrightarrow> sync_inv (onCombatComplete missionId cb s)"
  unfolding sync_inv_def onCombatComplete_def by auto

lemma sync_inv_start:
  assumes i: "sync_inv s"
  shows "sync_inv (startSynchronizedCombat missionId ai m now updates s)"
proof (cases "missionId \<in> completedCombats s \<or> isCombatActive s missionId")
  case True
  then show ?thesis using i by (simp add: start_skip)
next
  case False
  then have l: "missionId \<notin> combatLocks s" by (simp add: isCombatActive_def)
  with i have ab: "activeCombats s missionId = None" by (rule sync_inv_absent)
  have nostart: "filter (startedFor missionId) (calls s) = []"
    using i False l unfolding sync_inv_def by blast
  have nofinal: "finalResults s missionId = None"
    using i False ab unfolding sync_inv_def by blast
  have started: "filter (startedFor x) (calls s) \<noteq> [] \<Longrightarrow>
      x \<in> combatLocks s \<or> x \<in> completedCombats s" for x
    using i unfolding sync_inv_def by blast
  have once: "length (filter (startedFor x) (calls s)) \<le> 1" for x
    using i unfolding sync_inv_def by blast
  let ?s' = "startSynchronizedCombat missionId ai m now updates s"
  have eq: "?s' = s\<lparr>combatLocks := insert missionId (combatLocks s),
        calls := calls s @ [StartCombat missionId ai],
        activeCombats := (activeCombats s)(missionId \<mapsto>
               \<lparr>combatAI = ai, mission = m, isComplete = False, actualDuration = 0,
                startedAt = now\<rparr>)\<rparr>"
    using i False by (simp add: start_new)
  have b: "\<forall>x. x \<in> combatLocks ?s' \<longleftrightarrow> activeCombats ?s' x \<noteq> None"
    unfolding eq using i by (auto simp: sync_inv_def)
  have c: "\<forall>x. x \<in> completedCombats ?s' \<longrightarrow> finalResults ?s' x \<noteq> None"
    unfolding eq using i by (auto simp: sync_inv_def)
  have c': "\<forall>x. finalResults ?s' x \<noteq> None \<longrightarrow>
      x \<in> completedCombats ?s' \<or> activeCombats ?s' x \<noteq> None"
    unfolding eq using i by (auto simp: sync_inv_def)
  have d: "\<forall>x. x \<in> completedCombats ?s' \<longrightarrow> activeCombats ?s' x = None"
    unfolding eq using i False by (auto simp: sync_inv_def)
  have e: "\<forall>x. filter (startedFor x) (calls ?s') \<noteq> [] \<longrightarrow>
        x \<in> combatLocks ?s' \<or> x \<in> completedCombats ?s'"
    unfolding eq using started by (auto split: if_splits)
  have f: "\<forall>x. length (filter (startedFor x) (calls ?s')) \<le> 1"
    unfolding eq using once nostart by auto
  from b c c' d e f show ?thesis unfolding sync_inv_def by blast
qed

lemma sync_inv_exec: "sync_inv s \<Longrightarrow> sync_inv (exec op s)"
  by (cases op)
     (simp_all add: sync_inv_start sync_inv_onUpdate sync_inv_onCombatComplete sync_inv_forceCombatEnd)

lemma reachable_sync_inv: "reachable s \<Longrightarrow> sync_inv s"
  by (induction rule: reachable.induct) (simp_all add: sync_inv_initial sync_inv_exec)

lemma run_Nil: "run [] s = s"
  by (simp add: run_def)

lemma run_Cons: "run (op # ops) s = run ops (exec op s)"
  by (simp add: run_def)

lemma reachable_run: "reachable s \<Longrightarrow> reachable (run ops s)"
  by (induction ops arbitrary: s) (simp_all add: run_Nil run_Cons reachable.step)

lemma sync_inv_run: "sync_inv s \<Longrightarrow> sync_inv (run ops s)"
  by (induction ops arbitrary: s) (simp_all add: run_Nil run_Cons sync_inv_exec)

subsection \<open>Completed sessions and the registry\<close>

lemma all_live_exec:
  assumes i: "sync_inv s" and l: "all_live s" and q: "quiet op"
  shows "all_live (exec op s)"
proof (cases op)
  case (Start m ai mi now updates)
  show ?thesis
  proof (cases "m \<in> completedCombats s \<or> isCombatActive s m")
    case True
    then show ?thesis using Start l by (simp add: start_skip)
  next
    case False
    then show ?thesis using Start i l by (simp add: start_new all_live_def)
  qed
next
  case (Update m now state throwing)
  with q have t: "throwing = []" by simp
  show ?thesis
  proof (cases "activeCombats s m")
    case None
    then show ?thesis using Update l by (simp add: onUpdate_absent)
  next
    case (Some c)
    then show ?thesis using Update l t
      by (auto simp: onUpdate_def Let_def all_live_def forEachCallback_no_throw
          split: option.splits)
  qed
next
  case (Register m callback)
  then show ?thesis using l by (simp add: onCombatComplete_def all_live_def)
next
  case (ForceEnd m now cs)
  then show ?thesis using l
    by (auto simp: forceCombatEnd_def Let_def all_live_def split: option.splits)
qed

lemma all_live_run:
  "sync_inv s \<Longrightarrow> all_live s \<Longrightarrow> \<forall>op \<in> set ops. quiet op \<Longrightarrow> all_live (run ops s)"
  by (induction ops arbitrary: s) (simp_all add: run_Nil run_Cons sync_inv_exec all_live_exec)

text \<open>
  C10 as stated fails: a listener that throws ends the handler after \<open>isComplete\<close> is set
  and before the session is deleted, so the state between handler executions holds a
  complete session and \<^verbatim>\<open>getActualCombatDuration\<close> returns its duration.
\<close>

theorem complete_session_after_throw_counterexample:
  "getActualCombatDuration
     (run [Start ''m1'' 1 () 1000 [], Register ''m1'' 7,
           Update ''m1'' 4000 \<lparr>victory = Some True, startTime = 1000, combatants = []\<rparr> [7]]
        initial) ''m1'' = Some 3"
  by (simp add: run_def startSynchronizedCombat_def startCombat_def onUpdate_def
      onCombatComplete_def callbacksOf_def getActualCombatDuration_def initial_def Let_def)

text \<open>
  C10, amended: in every state between handler executions that is reached by
  operations in which no listener throws, every session stored in \<^verbatim>\<open>activeCombats\<close> has
  \<open>isComplete\<close> false, since the handler and \<^verbatim>\<open>forceCombatEnd\<close> delete the session in the
  step that completes it; so \<^verbatim>\<open>getActualCombatDuration\<close> returns null for every mission.
\<close>

theorem no_complete_session_registered:
  assumes "\<forall>op \<in> set ops. quiet op"
  shows "(\<forall>m c. activeCombats (run ops initial) m = Some c \<longrightarrow> \<not> isComplete c) \<and>
         getActualCombatDuration (run ops initial) missionId = None"
proof -
  have "all_live initial" by (simp add: all_live_def initial_def)
  with sync_inv_initial have "all_live (run ops initial)"
    using assms by (rule all_live_run)
  then have "\<forall>m c. activeCombats (run ops initial) m = Some c \<longrightarrow> \<not> isComplete c"
    by (simp add: all_live_def)
  then show ?thesis
    by (auto simp: getActualCombatDuration_def split: option.splits)
qed

theorem no_complete_session_registered_witness:
  "''m1'' \<in> completedCombats
     (run [Start ''m1'' 1 () 1000 [], Register ''m1'' 7, Start ''m2'' 2 () 1500 [],
           Update ''m1'' 4000 \<lparr>victory = Some True, startTime = 1000, combatants = []\<rparr> []]
        initial) \<and>
   getActualCombatDuration
     (run [Start ''m1'' 1 () 1000 [], Register ''m1'' 7, Start ''m2'' 2 () 1500 [],
           Update ''m1'' 4000 \<lparr>victory = Some True, startTime = 1000, combatants = []\<rparr> []]
        initial) ''m1'' = None \<and>
   getActualCombatDuration
     (run [Start ''m1'' 1 () 1000 [], Register ''m1'' 7, Start ''m2'' 2 () 1500 [],
           Update ''m1'' 4000 \<lparr>victory = Some True, startTime = 1000, combatants = []\<rparr> []]
        initial) ''m2'' = None \<and>
   activeCombats
     (run [Start ''m1'' 1 () 1000 [], Register ''m1'' 7, Start ''m2'' 2 () 1500 [],
           Update ''m1'' 4000 \<lparr>victory = Some True, startTime = 1000, combatants = []\<rparr> []]
        initial) ''m2''
     = Some \<lparr>combatAI = 2, mission = (), isComplete = False, actualDuration = 0, startedAt = 1500\<rparr>"
proof -
  let ?ops = "[Start ''m1'' 1 () 1000 [], Register ''m1'' 7, Start ''m2'' 2 () 1500 [],
           Update ''m1'' 4000 \<lparr>victory = Some True, startTime = 1000, combatants = []\<rparr> []]
           :: unit op list"
  have q: "\<forall>op \<in> set ?ops. quiet op" by simp
  have c: "''m1'' \<in> completedCombats (run ?ops initial)"
    by (simp add: run_def startSynchronizedCombat_def startCombat_def onUpdate_def
        onCombatComplete_def callbacksOf_def initial_def Let_def)
  have a: "activeCombats (run ?ops initial) ''m2''
     = Some \<lparr>combatAI = 2, mission = (), isComplete = False, actualDuration = 0, startedAt = 1500\<rparr>"
    by (simp add: run_def startSynchronizedCombat_def startCombat_def onUpdate_def
        onCombatComplete_def callbacksOf_def initial_def Let_def)
  from no_complete_session_registered [OF q, of "''m1''"]
  have g1: "getActualCombatDuration (run ?ops initial) ''m1'' = None" by (rule conjunct2)
  from no_complete_session_registered [OF q, of "''m2''"]
  have g2: "getActualCombatDuration (run ?ops initial) ''m2'' = None" by (rule conjunct2)
  from c g1 g2 a show ?thesis by (intro conjI)
qed

subsection \<open>Starting twice\<close>

lemma start_twice:
  assumes "sync_inv s"
  shows "startSynchronizedCombat missionId ai2 m2 now2 updates2
     (startSynchronizedCombat missionId ai m now updates s) =
   startSynchronizedCombat missionId ai m now updates s"
proof (cases "missionId \<in> completedCombats s \<or> isCombatActive s missionId")
  case True
  then show ?thesis by (simp add: start_skip)
next
  case False
  with assms have "isCombatActive (startSynchronizedCombat missionId ai m now updates s) missionId"
    by (simp add: start_new isCombatActive_def)
  then show ?thesis by (simp add: start_skip)
qed

text \<open>
  C2: a session is created only by \<^verbatim>\<open>startSynchronizedCombat\<close>, together with one call
  of \<^verbatim>\<open>startCombat\<close>. In every reachable state at most one combat has been started for a
  mission, so at most one session that is not complete exists for it. A call of
  \<^verbatim>\<open>startSynchronizedCombat\<close> for a mission that is completed, locked or has a live
  session returns the state unchanged, and a second call right after a first one changes
  nothing: when the first call started a combat, the state after both holds the one live
  session of the first call and one started combat.
\<close>

theorem one_session_per_mission:
  assumes "reachable s"
  shows "length (filter (startedFor missionId) (calls s)) \<le> 1 \<and>
     (missionId \<in> completedCombats s \<or> isCombatActive s missionId \<longrightarrow>
        startSynchronizedCombat missionId ai m now updates s = s) \<and>
     startSynchronizedCombat missionId ai2 m2 now2 updates2
        (startSynchronizedCombat missionId ai m now updates s) =
       startSynchronizedCombat missionId ai m now updates s \<and>
     (missionId \<notin> completedCombats s \<and> \<not> isCombatActive s missionId \<longrightarrow>
        activeCombats (startSynchronizedCombat missionId ai2 m2 now2 updates2
            (startSynchronizedCombat missionId ai m now updates s)) missionId =
          Some \<lparr>combatAI = ai, mission = m, isComplete = False, actualDuration = 0,
                startedAt = now\<rparr> \<and>
        filter (startedFor missionId) (calls (startSynchronizedCombat missionId ai2 m2 now2 updates2
            (startSynchronizedCombat missionId ai m now updates s))) = [StartCombat missionId ai])"
proof -
  from assms have i: "sync_inv s" by (rule reachable_sync_inv)
  then have a: "length (filter (startedFor missionId) (calls s)) \<le> 1"
    unfolding sync_inv_def by blast
  have d: "activeCombats (startSynchronizedCombat missionId ai m now updates s) missionId =
          Some \<lparr>combatAI = ai, mission = m, isComplete = False, actualDuration = 0,
                startedAt = now\<rparr> \<and>
        filter (startedFor missionId) (calls (startSynchronizedCombat missionId ai m now updates s))
          = [StartCombat missionId ai]"
    if n: "missionId \<notin> completedCombats s" "\<not> isCombatActive s missionId"
  proof -
    from n have "missionId \<notin> combatLocks s" by (simp add: isCombatActive_def)
    with i n have "filter (startedFor missionId) (calls s) = []"
      unfolding sync_inv_def by blast
    then show ?thesis using i n by (simp add: start_new)
  qed
  show ?thesis using a d i by (simp add: start_skip start_twice)
qed

theorem one_session_per_mission_witness:
  "reachable (run [Start ''m2'' 4 () 500 []] initial) \<and>
   calls (startSynchronizedCombat ''m1'' 2 () 2000 []
            (startSynchronizedCombat ''m1'' 1 () 1000 [] (run [Start ''m2'' 4 () 500 []] initial)))
     = [StartCombat ''m2'' 4, StartCombat ''m1'' 1] \<and>
   activeCombats (startSynchronizedCombat ''m1'' 2 () 2000 []
            (startSynchronizedCombat ''m1'' 1 () 1000 [] (run [Start ''m2'' 4 () 500 []] initial))) ''m1''
     = Some \<lparr>combatAI = 1, mission = (), isComplete = False, actualDuration = 0, startedAt = 1000\<rparr>"
proof -
  let ?s = "run [Start ''m2'' 4 () 500 []] (initial :: unit synchronizer)"
  have r: "reachable ?s" by (rule reachable_run) (rule reachable.init)
  have n: "''m1'' \<notin> completedCombats ?s \<and> \<not> isCombatActive ?s ''m1''"
    by (simp add: run_def startSynchronizedCombat_def startCombat_def initial_def Let_def
        isCombatActive_def)
  have c: "calls (startSynchronizedCombat ''m1'' 1 () 1000 [] ?s)
      = [StartCombat ''m2'' 4, StartCombat ''m1'' 1]"
    by (simp add: run_def startSynchronizedCombat_def startCombat_def initial_def Let_def)
  note t = one_session_per_mission [OF r, of "''m1''" 1 "()" 1000 "[]" 2 "()" 2000 "[]"]
  from t have e: "startSynchronizedCombat ''m1'' 2 () 2000 []
      (startSynchronizedCombat ''m1'' 1 () 1000 [] ?s) = startSynchronizedCombat ''m1'' 1 () 1000 [] ?s"
    by blast
  from t n have a: "activeCombats (startSynchronizedCombat ''m1'' 2 () 2000 []
      (startSynchronizedCombat ''m1'' 1 () 1000 [] ?s)) ''m1''
     = Some \<lparr>combatAI = 1, mission = (), isComplete = False, actualDuration = 0, startedAt = 1000\<rparr>"
    by blast
  from r a c show ?thesis unfolding e by blast
qed

subsection \<open>Completion is final\<close>

lemma completed_exec:
  assumes i: "sync_inv s" and c: "missionId \<in> completedCombats s"
  shows "missionId \<in> completedCombats (exec op s) \<and>
         finalResults (exec op s) missionId = finalResults s missionId"
proof -
  from i c have a: "activeCombats s missionId = None"
    unfolding sync_inv_def by blast
  show ?thesis
  proof (cases op)
    case (Start m ai mi now updates)
    show ?thesis
    proof (cases "m \<in> completedCombats s \<or> isCombatActive s m")
      case True
      then show ?thesis using Start c by (simp add: start_skip)
    next
      case False
      then show ?thesis using Start i c by (simp add: start_new)
    qed
  next
    case (Update m now state throwing)
    then show ?thesis using a c
      by (cases "m = missionId")
         (auto simp: onUpdate_def Let_def split_beta split: option.splits)
  next
    case (Register m callback)
    then show ?thesis using c by (simp add: onCombatComplete_def)
  next
    case (ForceEnd m now cs)
    then show ?thesis using a c
      by (cases "m = missionId")
         (auto simp: forceCombatEnd_def Let_def split: option.splits)
  qed
qed

lemma completed_run:
  "sync_inv s \<Longrightarrow> missionId \<in> completedCombats s \<Longrightarrow>
   missionId \<in> completedCombats (run ops s) \<and>
   finalResults (run ops s) missionId = finalResults s missionId"
proof (induction ops arbitrary: s)
  case Nil
  then show ?case by (simp add: run_Nil)
next
  case (Cons op ops)
  from completed_exec [OF Cons.prems] sync_inv_exec [OF Cons.prems(1)]
  show ?case using Cons.IH [of "exec op s"] by (simp add: run_Cons)
qed

text \<open>
  C3: once a mission is in \<^verbatim>\<open>completedCombats\<close> of a reachable state, then after any
  further run of operations it still is, \<^verbatim>\<open>startSynchronizedCombat\<close> for it returns the
  state unchanged (no session, no call of the collaborator), \<^verbatim>\<open>isCombatActive\<close> is false,
  and \<^verbatim>\<open>getCombatResults\<close> returns the result archived at completion, which exists and is
  never overwritten.
\<close>

theorem completed_is_absorbing:
  assumes "reachable s" and "missionId \<in> completedCombats s"
  shows "missionId \<in> completedCombats (run ops s) \<and>
     startSynchronizedCombat missionId ai m now updates (run ops s) = run ops s \<and>
     activeCombats (run ops s) missionId = None \<and>
     \<not> isCombatActive (run ops s) missionId \<and>
     getCombatResults (run ops s) missionId = getCombatResults s missionId \<and>
     getCombatResults s missionId \<noteq> None"
proof -
  from assms(1) have i: "sync_inv s" by (rule reachable_sync_inv)
  then have i': "sync_inv (run ops s)" by (rule sync_inv_run)
  from completed_run [OF i assms(2)]
  have c: "missionId \<in> completedCombats (run ops s)"
    and f: "finalResults (run ops s) missionId = finalResults s missionId" by simp_all
  from i' c have a: "activeCombats (run ops s) missionId = None"
    unfolding sync_inv_def by blast
  from i' a have l: "missionId \<notin> combatLocks (run ops s)"
    unfolding sync_inv_def by blast
  from i assms(2) have r: "finalResults s missionId \<noteq> None"
    unfolding sync_inv_def by blast
  show ?thesis using c f a l r
    by (simp add: start_skip isCombatActive_def getCombatResults_def)
qed

theorem completed_is_absorbing_witness:
  "reachable (run [Start ''m1'' 1 () 1000 [],
        Update ''m1'' 4000 \<lparr>victory = Some True, startTime = 1000, combatants = []\<rparr> []] initial) \<and>
   ''m1'' \<in> completedCombats (run [Start ''m1'' 1 () 1000 [],
        Update ''m1'' 4000 \<lparr>victory = Some True, startTime = 1000, combatants = []\<rparr> []] initial) \<and>
   getCombatResults (run [Start ''m1'' 3 () 5000 [],
        Update ''m1'' 9000 \<lparr>victory = Some False, startTime = 5000, combatants = []\<rparr> [],
        ForceEnd ''m1'' 9500 None]
      (run [Start ''m1'' 1 () 1000 [],
        Update ''m1'' 4000 \<lparr>victory = Some True, startTime = 1000, combatants = []\<rparr> []] initial)) ''m1''
    = Some \<lparr>fr_victory = True, fr_actualDuration = 3, finalHealths = Map.empty\<rparr>"
proof -
  let ?s = "run [Start ''m1'' 1 () 1000 [],
        Update ''m1'' 4000 \<lparr>victory = Some True, startTime = 1000, combatants = []\<rparr> []]
        (initial :: unit synchronizer)"
  have r: "reachable ?s" by (rule reachable_run) (rule reachable.init)
  have c: "''m1'' \<in> completedCombats ?s"
    by (simp add: run_def startSynchronizedCombat_def startCombat_def onUpdate_def callbacksOf_def initial_def Let_def)
  have g: "getCombatResults ?s ''m1'' =
      Some \<lparr>fr_victory = True, fr_actualDuration = 3, finalHealths = Map.empty\<rparr>"
    by (simp add: run_def startSynchronizedCombat_def startCombat_def onUpdate_def callbacksOf_def initial_def Let_def
        getCombatResults_def collectHealths_def)
  from completed_is_absorbing [OF r c, of "[Start ''m1'' 3 () 5000 [],
        Update ''m1'' 9000 \<lparr>victory = Some False, startTime = 5000, combatants = []\<rparr> [],
        ForceEnd ''m1'' 9500 None]"] r c g
  show ?thesis by simp
qed

subsection \<open>Notification of the listeners\<close>

lemma callbacksOf_exec:
  assumes i: "sync_inv s"
  shows "callbacksOf (exec op s) missionId = callbacksOf s missionId @ registeredBy missionId op \<or>
         missionId \<in> completedCombats (exec op s)"
proof (cases op)
  case (Start m ai mi now updates)
  show ?thesis
  proof (cases "m \<in> completedCombats s \<or> isCombatActive s m")
    case True
    then show ?thesis using Start by (simp add: start_skip)
  next
    case False
    then show ?thesis using Start i by (simp add: start_new callbacksOf_def)
  qed
next
  case (Update m now state throwing)
  then show ?thesis
    by (auto simp: onUpdate_def callbacksOf_def Let_def split_beta split: option.splits)
next
  case (Register m callback)
  then show ?thesis by (simp add: onCombatComplete_def callbacksOf_def)
next
  case (ForceEnd m now cs)
  then show ?thesis
    by (auto simp: forceCombatEnd_def callbacksOf_def Let_def split: option.splits)
qed

lemma callbacksOf_run:
  "sync_inv s \<Longrightarrow> activeCombats (run ops s) missionId \<noteq> None \<Longrightarrow>
   callbacksOf (run ops s) missionId = callbacksOf s missionId @ registered missionId ops"
proof (induction ops arbitrary: s)
  case Nil
  then show ?case by (simp add: run_Nil registered_def)
next
  case (Cons op ops)
  from Cons.prems(1) have i: "sync_inv (exec op s)" by (rule sync_inv_exec)
  from Cons.prems(2) have a: "activeCombats (run ops (exec op s)) missionId \<noteq> None"
    by (simp add: run_Cons)
  have "missionId \<notin> completedCombats (exec op s)"
  proof
    assume "missionId \<in> completedCombats (exec op s)"
    with i have "missionId \<in> completedCombats (run ops (exec op s))"
      by (simp add: completed_run)
    moreover from i have "sync_inv (run ops (exec op s))" by (rule sync_inv_run)
    ultimately have "activeCombats (run ops (exec op s)) missionId = None"
      unfolding sync_inv_def by blast
    with a show False by simp
  qed
  with callbacksOf_exec [OF Cons.prems(1), of op missionId]
  have "callbacksOf (exec op s) missionId = callbacksOf s missionId @ registeredBy missionId op"
    by simp
  moreover from Cons.IH [OF i a]
  have "callbacksOf (run ops (exec op s)) missionId =
      callbacksOf (exec op s) missionId @ registered missionId ops" .
  ultimately show ?case by (simp add: run_Cons registered_def)
qed

lemma onUpdate_terminal:
  assumes "activeCombats s missionId \<noteq> None" "victory state = Some v"
    and "set throwing \<inter> set (callbacksOf s missionId) = {}"
  shows "calls (fst (onUpdate missionId now state throwing s)) =
           calls s @ map (\<lambda>callback. Callback callback v ((now - startTime state) / 1000))
                       (callbacksOf s missionId) \<and>
         missionCompletionCallbacks (fst (onUpdate missionId now state throwing s)) missionId = None \<and>
         \<not> snd (onUpdate missionId now state throwing s)"
proof -
  from assms(1) obtain c where c: "activeCombats s missionId = Some c" by auto
  have nt: "forEachCallback throwing v ((now - startTime state) / 1000) (callbacksOf s missionId) =
      (map (\<lambda>callback. Callback callback v ((now - startTime state) / 1000))
         (callbacksOf s missionId), False)"
    using assms(3) by (rule forEachCallback_no_throw)
  from c assms(2) show ?thesis
  proof (cases rule: onUpdate_cases [where now = now and throwing = throwing])
    case (threw made)
    with nt show ?thesis by simp
  next
    case (returned made)
    show ?thesis unfolding returned(1) returned(2) nt by simp
  qed
qed

text \<open>
  C1 as stated fails: the listeners are called in a loop with nothing around it that
  catches, so a listener that throws ends the handler: the listeners registered after it
  are not called and the listener list is not cleared.
\<close>

theorem throwing_listener_counterexample:
  "calls (fst (onUpdate ''m1'' 4000 \<lparr>victory = Some True, startTime = 1000, combatants = []\<rparr> [7]
            (run [Start ''m1'' 1 () 1000 [], Register ''m1'' 7, Register ''m1'' 8] initial)))
     = [StartCombat ''m1'' 1, Callback 7 True 3] \<and>
   callbacksOf (fst (onUpdate ''m1'' 4000 \<lparr>victory = Some True, startTime = 1000, combatants = []\<rparr> [7]
            (run [Start ''m1'' 1 () 1000 [], Register ''m1'' 7, Register ''m1'' 8] initial))) ''m1''
     = [7, 8]"
  by (simp add: run_def startSynchronizedCombat_def startCombat_def onUpdate_def
      onCombatComplete_def callbacksOf_def initial_def Let_def)

text \<open>
  C1, amended: when the handler processes the terminal update of a mission (its session
  is stored, \<open>victory\<close> is not null) and none of the listeners registered for the mission
  throws, the listeners registered with \<^verbatim>\<open>onCombatComplete\<close> before that moment (those
  already listed in the reachable state \<open>s\<close>, then those the run \<open>ops\<close> registers) are
  called: one call per registration, in registration order, each with the same
  \<open>victory\<close> and duration, and nothing else is called; the handler returns, and
  afterwards the mission has no listener list.
\<close>

theorem listeners_notified_once_in_order:
  assumes "reachable s"
    and "activeCombats (run ops s) missionId \<noteq> None"
    and "victory state = Some v"
    and "set throwing \<inter> set (callbacksOf s missionId @ registered missionId ops) = {}"
  shows "calls (fst (onUpdate missionId now state throwing (run ops s))) =
           calls (run ops s) @
           map (\<lambda>callback. Callback callback v ((now - startTime state) / 1000))
             (callbacksOf s missionId @ registered missionId ops) \<and>
         \<not> snd (onUpdate missionId now state throwing (run ops s)) \<and>
         missionCompletionCallbacks (fst (onUpdate missionId now state throwing (run ops s))) missionId
           = None \<and>
         callbacksOf (fst (onUpdate missionId now state throwing (run ops s))) missionId = []"
proof -
  from assms(1) have "sync_inv s" by (rule reachable_sync_inv)
  then have c: "callbacksOf (run ops s) missionId =
      callbacksOf s missionId @ registered missionId ops"
    using assms(2) by (rule callbacksOf_run)
  with assms(4) have "set throwing \<inter> set (callbacksOf (run ops s) missionId) = {}"
    by simp
  from onUpdate_terminal [OF assms(2,3) this] c show ?thesis
    by (simp add: callbacksOf_def)
qed

theorem listeners_notified_once_in_order_witness:
  "reachable (initial :: unit synchronizer) \<and>
   calls (fst (onUpdate ''m1'' 4000 \<lparr>victory = Some True, startTime = 1000, combatants = []\<rparr> [5]
     (run [Register ''m1'' 7, Update ''m1'' 900 \<lparr>victory = Some False, startTime = 800, combatants = []\<rparr> [],
           Start ''m1'' 1 () 1000 [], Register ''m2'' 5, Register ''m1'' 8,
           Update ''m1'' 1500 \<lparr>victory = None, startTime = 1000, combatants = []\<rparr> [],
           Register ''m1'' 9] initial)))
   = [StartCombat ''m1'' 1, Callback 7 True 3, Callback 8 True 3, Callback 9 True 3]"
proof -
  let ?ops = "[Register ''m1'' 7, Update ''m1'' 900 \<lparr>victory = Some False, startTime = 800, combatants = []\<rparr> [],
           Start ''m1'' 1 () 1000 [], Register ''m2'' 5, Register ''m1'' 8,
           Update ''m1'' 1500 \<lparr>victory = None, startTime = 1000, combatants = []\<rparr> [],
           Register ''m1'' 9] :: unit op list"
  let ?st = "\<lparr>victory = Some True, startTime = 1000, combatants = []\<rparr>"
  have h1: "reachable (initial :: unit synchronizer)" by (rule reachable.init)
  have h2: "activeCombats (run ?ops initial) ''m1'' \<noteq> None"
    by (simp add: run_def startSynchronizedCombat_def startCombat_def onUpdate_def
        onCombatComplete_def callbacksOf_def initial_def Let_def)
  have h3: "victory ?st = Some True" by simp
  have h4: "set [5] \<inter> set (callbacksOf (initial :: unit synchronizer) ''m1'' @ registered ''m1'' ?ops) = {}"
    by (simp add: callbacksOf_def initial_def registered_def)
  have c: "calls (run ?ops initial) = [StartCombat ''m1'' 1]"
    by (simp add: run_def startSynchronizedCombat_def startCombat_def onUpdate_def
        onCombatComplete_def callbacksOf_def initial_def Let_def)
  from listeners_notified_once_in_order [OF h1 h2 h3 h4, of 4000] h1 c show ?thesis
    by (simp add: callbacksOf_def initial_def registered_def)
qed

subsection \<open>A terminal update delivered before the session is stored\<close>

lemma session_kept_exec:
  assumes i: "sync_inv s" and a: "activeCombats s missionId = Some c"
    and ne: "\<not> ending missionId op"
  shows "activeCombats (exec op s) missionId = Some c"
proof (cases op)
  case (Start m ai mi now updates)
  show ?thesis
  proof (cases "m \<in> completedCombats s \<or> isCombatActive s m")
    case True
    then show ?thesis using Start a by (simp add: start_skip)
  next
    case False
    with i have "activeCombats s m = None"
      by (simp add: sync_inv_absent isCombatActive_def)
    with a have "m \<noteq> missionId" by auto
    then show ?thesis using Start i a False by (simp add: start_new)
  qed
next
  case (Update m now state throwing)
  then show ?thesis using a ne
    by (cases "m = missionId") (auto simp: onUpdate_def Let_def split_beta split: option.splits)
next
  case (Register m callback)
  then show ?thesis using a by (simp add: onCombatComplete_def)
next
  case (ForceEnd m now cs)
  then show ?thesis using a ne
    by (auto simp: forceCombatEnd_def Let_def split: option.splits)
qed

lemma session_kept_run:
  "sync_inv s \<Longrightarrow> activeCombats s missionId = Some c \<Longrightarrow>
   \<forall>op \<in> set ops. \<not> ending missionId op \<Longrightarrow>
   activeCombats (run ops s) missionId = Some c"
proof (induction ops arbitrary: s)
  case Nil
  then show ?case by (simp add: run_Nil)
next
  case (Cons op ops)
  then have "activeCombats (exec op s) missionId = Some c"
    by (simp add: session_kept_exec)
  with Cons show ?case by (simp add: run_Cons sync_inv_exec)
qed

text \<open>
  C9: on the path of \<^verbatim>\<open>startSynchronizedCombat\<close> that starts a combat, whatever
  updates the collaborator delivers from inside \<^verbatim>\<open>startCombat\<close>, terminal ones included,
  the handler finds no stored session and does nothing: no final result is archived, no
  listener is called or dropped, the mission is not marked completed. The session stored
  afterwards stays live through every later run of operations that contains neither a
  forced end nor another terminal update for the mission (the collaborator has delivered
  its terminal update already); \<^verbatim>\<open>forceCombatEnd\<close> does end it.
\<close>

theorem early_terminal_update_is_lost:
  assumes "reachable s"
    and "missionId \<notin> completedCombats s" and "\<not> isCombatActive s missionId"
    and "\<forall>op \<in> set ops. \<not> ending missionId op"
  shows "getCombatResults (startSynchronizedCombat missionId ai m now updates s) missionId = None \<and>
     calls (startSynchronizedCombat missionId ai m now updates s) =
       calls s @ [StartCombat missionId ai] \<and>
     missionCompletionCallbacks (startSynchronizedCombat missionId ai m now updates s) =
       missionCompletionCallbacks s \<and>
     missionId \<notin> completedCombats (startSynchronizedCombat missionId ai m now updates s) \<and>
     activeCombats (run ops (startSynchronizedCombat missionId ai m now updates s)) missionId =
       Some \<lparr>combatAI = ai, mission = m, isComplete = False, actualDuration = 0,
             startedAt = now\<rparr> \<and>
     isCombatActive (run ops (startSynchronizedCombat missionId ai m now updates s)) missionId \<and>
     missionId \<notin> completedCombats (run ops (startSynchronizedCombat missionId ai m now updates s)) \<and>
     \<not> isCombatActive (forceCombatEnd missionId now' combatState
          (run ops (startSynchronizedCombat missionId ai m now updates s))) missionId"
proof -
  let ?s' = "startSynchronizedCombat missionId ai m now updates s"
  let ?c = "\<lparr>combatAI = ai, mission = m, isComplete = False, actualDuration = 0, startedAt = now\<rparr>"
  from assms(1) have i: "sync_inv s" by (rule reachable_sync_inv)
  then have i': "sync_inv ?s'" by (rule sync_inv_start)
  from assms(3) have "missionId \<notin> combatLocks s" by (simp add: isCombatActive_def)
  with i have "activeCombats s missionId = None" by (rule sync_inv_absent)
  with i assms(2) have f: "finalResults s missionId = None"
    unfolding sync_inv_def by blast
  note eq = start_new [OF i assms(2,3)]
  have a: "activeCombats ?s' missionId = Some ?c"
    by (simp add: eq)
  from session_kept_run [OF i' a assms(4)]
  have k: "activeCombats (run ops ?s') missionId = Some ?c" .
  from i' have i'': "sync_inv (run ops ?s')" by (rule sync_inv_run)
  with k have nc: "missionId \<notin> completedCombats (run ops ?s')"
    unfolding sync_inv_def by auto
  have fe: "\<not> isCombatActive (forceCombatEnd missionId now' combatState (run ops ?s')) missionId"
    using k by (simp add: forceCombatEnd_def isCombatActive_def Let_def)
  have "getCombatResults ?s' missionId = None"
    using f by (simp add: eq getCombatResults_def)
  moreover have "calls ?s' = calls s @ [StartCombat missionId ai]"
    by (simp add: eq)
  moreover have "missionCompletionCallbacks ?s' = missionCompletionCallbacks s"
    by (simp add: eq)
  moreover have "missionId \<notin> completedCombats ?s'"
    using assms(2) by (simp add: eq)
  moreover have "isCombatActive (run ops ?s') missionId"
    using k by (simp add: isCombatActive_def)
  ultimately show ?thesis using k nc fe by blast
qed

theorem early_terminal_update_is_lost_witness:
  "reachable (run [Register ''m1'' 7] (initial :: unit synchronizer)) \<and>
   ''m1'' \<notin> completedCombats (run [Register ''m1'' 7] (initial :: unit synchronizer)) \<and>
   \<not> isCombatActive (run [Register ''m1'' 7] (initial :: unit synchronizer)) ''m1'' \<and>
   calls (startSynchronizedCombat ''m1'' 1 () 1000
            [(1000, \<lparr>victory = Some True, startTime = 1000, combatants = []\<rparr>, [7])]
            (run [Register ''m1'' 7] (initial :: unit synchronizer))) = [StartCombat ''m1'' 1] \<and>
   getCombatResults (startSynchronizedCombat ''m1'' 1 () 1000
            [(1000, \<lparr>victory = Some True, startTime = 1000, combatants = []\<rparr>, [7])]
            (run [Register ''m1'' 7] (initial :: unit synchronizer))) ''m1'' = None \<and>
   isCombatActive
     (run [Update ''m1'' 2000 \<lparr>victory = None, startTime = 1000, combatants = []\<rparr> [],
           Start ''m1'' 2 () 3000 [], Register ''m1'' 8]
        (startSynchronizedCombat ''m1'' 1 () 1000
            [(1000, \<lparr>victory = Some True, startTime = 1000, combatants = []\<rparr>, [7])]
            (run [Register ''m1'' 7] (initial :: unit synchronizer)))) ''m1''"
proof -
  let ?s = "run [Register ''m1'' 7] (initial :: unit synchronizer)"
  let ?ops = "[Update ''m1'' 2000 \<lparr>victory = None, startTime = 1000, combatants = []\<rparr> [],
                 Start ''m1'' 2 () 3000 [], Register ''m1'' 8 :: unit op]"
  have h1: "reachable ?s" by (rule reachable_run) (rule reachable.init)
  have h2: "''m1'' \<notin> completedCombats ?s"
    by (simp add: run_def onCombatComplete_def initial_def)
  have h3: "\<not> isCombatActive ?s ''m1''"
    by (simp add: run_def onCombatComplete_def initial_def isCombatActive_def)
  have h4: "\<forall>op \<in> set ?ops. \<not> ending ''m1'' op" by simp
  have c: "calls ?s = []"
    by (simp add: run_def onCombatComplete_def initial_def)
  note t = early_terminal_update_is_lost [OF h1 h2 h3 h4, of 1 "()" 1000
      "[(1000, \<lparr>victory = Some True, startTime = 1000, combatants = []\<rparr>, [7])]"]
  from t c have c': "calls (startSynchronizedCombat ''m1'' 1 () 1000
            [(1000, \<lparr>victory = Some True, startTime = 1000, combatants = []\<rparr>, [7])] ?s)
       = [StartCombat ''m1'' 1]" by simp
  from t have g: "getCombatResults (startSynchronizedCombat ''m1'' 1 () 1000
            [(1000, \<lparr>victory = Some True, startTime = 1000, combatants = []\<rparr>, [7])] ?s) ''m1'' = None"
    by (rule conjunct1)
  from t have a: "isCombatActive (run ?ops (startSynchronizedCombat ''m1'' 1 () 1000
            [(1000, \<lparr>victory = Some True, startTime = 1000, combatants = []\<rparr>, [7])] ?s)) ''m1''"
    by simp
  from h1 h2 h3 c' g a show ?thesis by (intro conjI)
qed

subsection \<open>The start lock\<close>

text \<open>
  C5 as stated fails: \<^verbatim>\<open>startSynchronizedCombat\<close> never deletes the mission from
  \<^verbatim>\<open>combatLocks\<close>; after a call that stored a session the mission is still locked.
\<close>

theorem lock_held_after_start_counterexample:
  "activeCombats (startSynchronizedCombat ''m1'' 1 () 1000 [] initial) ''m1'' =
     Some \<lparr>combatAI = 1, mission = (), isComplete = False, actualDuration = 0, startedAt = 1000\<rparr> \<and>
   ''m1'' \<in> combatLocks (startSynchronizedCombat ''m1'' 1 () 1000 [] initial)"
  by (simp add: startSynchronizedCombat_def startCombat_def initial_def Let_def)

lemma startTrace_last:
  assumes "missionId \<notin> completedCombats s" "\<not> isCombatActive s missionId"
  shows "last (startTrace missionId ai m now updates s) =
         startSynchronizedCombat missionId ai m now updates s"
  using assms
  by (auto simp: startTrace_def startSynchronizedCombat_def isCombatActive_def Let_def split_beta
      split: option.splits)

lemma startTrace_locked:
  assumes a: "activeCombats s missionId = None"
    and s': "s' \<in> set (startTrace missionId ai m now updates s)"
  shows "missionId \<in> combatLocks s'"
proof -
  let ?s1 = "s\<lparr>combatLocks := insert missionId (combatLocks s)\<rparr>"
  from a have a1: "activeCombats ?s1 missionId = None" by simp
  have sc: "startCombat missionId ai us ?s1 =
      (?s1\<lparr>calls := calls ?s1 @ [StartCombat missionId ai]\<rparr>, False)"
    for us by (rule startCombat_absent [OF a1])
  from s' show ?thesis
    unfolding startTrace_def Let_def sc by auto
qed

lemma lock_kept_exec:
  assumes i: "sync_inv s" and l: "missionId \<in> combatLocks s" and ne: "\<not> ending missionId op"
  shows "missionId \<in> combatLocks (exec op s)"
proof (cases op)
  case (Start m ai mi now updates)
  show ?thesis
  proof (cases "m \<in> completedCombats s \<or> isCombatActive s m")
    case True
    then show ?thesis using Start l by (simp add: start_skip)
  next
    case False
    then show ?thesis using Start i l by (simp add: start_new)
  qed
next
  case (Update m now state throwing)
  then show ?thesis using l ne
    by (cases "m = missionId") (auto simp: onUpdate_def Let_def split_beta split: option.splits)
next
  case (Register m callback)
  then show ?thesis using l by (simp add: onCombatComplete_def)
next
  case (ForceEnd m now cs)
  then show ?thesis using l ne
    by (auto simp: forceCombatEnd_def Let_def split: option.splits)
qed

lemma lock_or_completed_exec:
  assumes i: "sync_inv s"
    and l: "missionId \<in> combatLocks s \<or> missionId \<in> completedCombats s"
  shows "missionId \<in> combatLocks (exec op s) \<or> missionId \<in> completedCombats (exec op s)"
proof (cases op)
  case (Start m ai mi now updates)
  show ?thesis
  proof (cases "m \<in> completedCombats s \<or> isCombatActive s m")
    case True
    then show ?thesis using Start l by (simp add: start_skip)
  next
    case False
    then show ?thesis using Start i l by (auto simp: start_new)
  qed
next
  case (Update m now state throwing)
  then show ?thesis using l
    by (auto simp: onUpdate_def Let_def split_beta split: option.splits)
next
  case (Register m callback)
  then show ?thesis using l by (simp add: onCombatComplete_def)
next
  case (ForceEnd m now cs)
  then show ?thesis using l
    by (auto simp: forceCombatEnd_def Let_def split: option.splits)
qed

lemma lock_or_completed_run:
  "sync_inv s \<Longrightarrow> missionId \<in> combatLocks s \<or> missionId \<in> completedCombats s \<Longrightarrow>
   missionId \<in> combatLocks (run ops s) \<or> missionId \<in> completedCombats (run ops s)"
proof (induction ops arbitrary: s)
  case Nil
  then show ?case by (simp add: run_Nil)
next
  case (Cons op ops)
  from lock_or_completed_exec [OF Cons.prems] sync_inv_exec [OF Cons.prems(1)]
  show ?case using Cons.IH [of "exec op s"] by (simp add: run_Cons)
qed

text \<open>
  C5, amended: on the path of \<^verbatim>\<open>startSynchronizedCombat\<close> that starts a combat, the
  mission is put into \<^verbatim>\<open>combatLocks\<close> first and stays there in every state the call goes
  through; when the call returns, the session is stored, not complete, and the mission is
  still locked. In every state reached afterwards the mission is locked or completed, and
  an operation that is neither a forced end nor a terminal update for the mission leaves
  it locked. \<^verbatim>\<open>forceCombatEnd\<close>, and the handler of a terminal update in which no listener
  of the mission throws, applied after the start, delete the lock.
\<close>

theorem lock_held_from_start_to_end:
  assumes "reachable s"
    and "missionId \<notin> completedCombats s" and "\<not> isCombatActive s missionId"
  shows "(\<forall>s' \<in> set (startTrace missionId ai m now updates s). missionId \<in> combatLocks s') \<and>
     last (startTrace missionId ai m now updates s) =
       startSynchronizedCombat missionId ai m now updates s \<and>
     missionId \<in> combatLocks (startSynchronizedCombat missionId ai m now updates s) \<and>
     activeCombats (startSynchronizedCombat missionId ai m now updates s) missionId =
       Some \<lparr>combatAI = ai, mission = m, isComplete = False, actualDuration = 0,
             startedAt = now\<rparr> \<and>
     (missionId \<in> combatLocks (run ops (startSynchronizedCombat missionId ai m now updates s)) \<or>
      missionId \<in> completedCombats (run ops (startSynchronizedCombat missionId ai m now updates s))) \<and>
     (missionId \<in> combatLocks (run ops (startSynchronizedCombat missionId ai m now updates s)) \<and>
      \<not> ending missionId op \<longrightarrow>
        missionId \<in> combatLocks
          (exec op (run ops (startSynchronizedCombat missionId ai m now updates s)))) \<and>
     missionId \<notin> combatLocks (forceCombatEnd missionId now' combatState
        (startSynchronizedCombat missionId ai m now updates s)) \<and>
     (victory state \<noteq> None \<and> set throwing \<inter> set (callbacksOf s missionId) = {} \<longrightarrow>
        missionId \<notin> combatLocks (fst (onUpdate missionId now' state throwing
          (startSynchronizedCombat missionId ai m now updates s))))"
proof -
  let ?s' = "startSynchronizedCombat missionId ai m now updates s"
  from assms(1) have i: "sync_inv s" by (rule reachable_sync_inv)
  then have i': "sync_inv ?s'" by (rule sync_inv_start)
  then have i'': "sync_inv (run ops ?s')" by (rule sync_inv_run)
  from assms(3) have "missionId \<notin> combatLocks s" by (simp add: isCombatActive_def)
  with i have a: "activeCombats s missionId = None" by (rule sync_inv_absent)
  note eq = start_new [OF i assms(2,3)]
  have 1: "\<forall>s' \<in> set (startTrace missionId ai m now updates s). missionId \<in> combatLocks s'"
    using startTrace_locked [OF a] by blast
  have 2: "last (startTrace missionId ai m now updates s) = ?s'"
    using assms(2,3) by (rule startTrace_last)
  have 3: "missionId \<in> combatLocks ?s'" by (simp add: eq)
  have 4: "activeCombats ?s' missionId =
       Some \<lparr>combatAI = ai, mission = m, isComplete = False, actualDuration = 0,
             startedAt = now\<rparr>" by (simp add: eq)
  have 5: "missionId \<in> combatLocks (run ops ?s') \<or> missionId \<in> completedCombats (run ops ?s')"
    using i' 3 by (intro lock_or_completed_run) simp_all
  have 6: "missionId \<in> combatLocks (run ops ?s') \<and> \<not> ending missionId op \<longrightarrow>
        missionId \<in> combatLocks (exec op (run ops ?s'))"
    using lock_kept_exec [OF i''] by blast
  have 7: "missionId \<notin> combatLocks (forceCombatEnd missionId now' combatState ?s')"
    using 4 by (simp add: forceCombatEnd_def Let_def)
  have 8: "missionId \<notin> combatLocks (fst (onUpdate missionId now' state throwing ?s'))"
    if v: "victory state \<noteq> None" and t: "set throwing \<inter> set (callbacksOf s missionId) = {}"
  proof -
    from v obtain w where w: "victory state = Some w" by auto
    have c: "callbacksOf ?s' missionId = callbacksOf s missionId"
      by (simp add: eq callbacksOf_def)
    have "forEachCallback throwing w ((now' - startTime state) / 1000) (callbacksOf ?s' missionId) =
        (map (\<lambda>callback. Callback callback w ((now' - startTime state) / 1000))
           (callbacksOf ?s' missionId), False)"
      using t unfolding c by (rule forEachCallback_no_throw)
    with 4 w show ?thesis
      by (cases rule: onUpdate_cases [where now = now' and throwing = throwing]) simp_all
  qed
  from 1 2 3 4 5 6 7 8 show ?thesis by (intro conjI) blast+
qed

theorem lock_held_from_start_to_end_witness:
  "reachable (run [Start ''m2'' 4 () 500 []] initial) \<and>
   ''m1'' \<notin> completedCombats (run [Start ''m2'' 4 () 500 []] initial) \<and>
   \<not> isCombatActive (run [Start ''m2'' 4 () 500 []] initial) ''m1'' \<and>
   map (\<lambda>s'. ''m1'' \<in> combatLocks s') (startTrace ''m1'' 1 () 1000
        [(1000, \<lparr>victory = Some True, startTime = 1000, combatants = []\<rparr>, [])]
        (run [Start ''m2'' 4 () 500 []] initial)) = [True, True, True, True] \<and>
   ''m1'' \<in> combatLocks (startSynchronizedCombat ''m1'' 1 () 1000
        [(1000, \<lparr>victory = Some True, startTime = 1000, combatants = []\<rparr>, [])]
        (run [Start ''m2'' 4 () 500 []] initial)) \<and>
   ''m1'' \<in> combatLocks
     (exec (Update ''m1'' 2000 \<lparr>victory = None, startTime = 1000, combatants = []\<rparr> [])
        (run [Register ''m1'' 7, Update ''m2'' 1800 \<lparr>victory = Some False, startTime = 500, combatants = []\<rparr> []]
          (startSynchronizedCombat ''m1'' 1 () 1000
            [(1000, \<lparr>victory = Some True, startTime = 1000, combatants = []\<rparr>, [])]
            (run [Start ''m2'' 4 () 500 []] initial))))"
proof -
  let ?s = "run [Start ''m2'' 4 () 500 []] (initial :: unit synchronizer)"
  let ?us = "[(1000 :: real, \<lparr>victory = Some True, startTime = 1000, combatants = []\<rparr>, [] :: nat list)]"
  let ?ops = "[Register ''m1'' 7, Update ''m2'' 1800 \<lparr>victory = Some False, startTime = 500, combatants = []\<rparr> []]
      :: unit op list"
  let ?op = "Update ''m1'' 2000 \<lparr>victory = None, startTime = 1000, combatants = []\<rparr> [] :: unit op"
  have h1: "reachable ?s" by (rule reachable_run) (rule reachable.init)
  have h2: "''m1'' \<notin> completedCombats ?s"
    by (simp add: run_def startSynchronizedCombat_def startCombat_def initial_def Let_def)
  have h3: "\<not> isCombatActive ?s ''m1''"
    by (simp add: run_def startSynchronizedCombat_def startCombat_def initial_def Let_def
        isCombatActive_def)
  have n: "length (startTrace ''m1'' 1 () 1000 ?us ?s) = 4"
    by (simp add: startTrace_def Let_def split_beta)
  note t = lock_held_from_start_to_end [OF h1 h2 h3, of 1 "()" 1000 ?us ?ops ?op]
  from t have "\<forall>s' \<in> set (startTrace ''m1'' 1 () 1000 ?us ?s). ''m1'' \<in> combatLocks s'"
    by (rule conjunct1)
  then have "map (\<lambda>s'. ''m1'' \<in> combatLocks s') (startTrace ''m1'' 1 () 1000 ?us ?s) =
      map (\<lambda>s'. True) (startTrace ''m1'' 1 () 1000 ?us ?s)"
    by simp
  also have "\<dots> = replicate (length (startTrace ''m1'' 1 () 1000 ?us ?s)) True"
    by (rule map_replicate_const)
  finally have a: "map (\<lambda>s'. ''m1'' \<in> combatLocks s') (startTrace ''m1'' 1 () 1000 ?us ?s) =
      [True, True, True, True]"
    unfolding n by (simp add: numeral_eq_Suc)
  from t have b: "''m1'' \<in> combatLocks (startSynchronizedCombat ''m1'' 1 () 1000 ?us ?s)"
    by simp
  have nc: "''m1'' \<notin> completedCombats (run ?ops (startSynchronizedCombat ''m1'' 1 () 1000 ?us ?s))"
    by (simp add: run_def startSynchronizedCombat_def startCombat_def onUpdate_def
        onCombatComplete_def callbacksOf_def initial_def Let_def)
  have ne: "\<not> ending ''m1'' ?op" by simp
  from t nc have l: "''m1'' \<in> combatLocks (run ?ops (startSynchronizedCombat ''m1'' 1 () 1000 ?us ?s))"
    by blast
  from t l ne have c: "''m1'' \<in> combatLocks
      (exec ?op (run ?ops (startSynchronizedCombat ''m1'' 1 () 1000 ?us ?s)))"
    by blast
  from h1 h2 h3 a b c show ?thesis by (intro conjI)
qed

subsection \<open>Forced end\<close>

text \<open>
  C4 as stated fails: the handler of a terminal update with \<open>victory = false\<close> calls the
  registered listeners, \<^verbatim>\<open>forceCombatEnd\<close> deletes them without calling them.
\<close>

theorem forced_end_skips_listeners_counterexample:
  "calls (fst (onUpdate ''m1'' 5000 \<lparr>victory = Some False, startTime = 1000, combatants = []\<rparr> []
            (run [Start ''m1'' 1 () 1000 [], Register ''m1'' 7] initial)))
     = [StartCombat ''m1'' 1, Callback 7 False 4] \<and>
   calls (forceCombatEnd ''m1'' 5000 (Some \<lparr>victory = None, startTime = 1000, combatants = []\<rparr>)
            (run [Start ''m1'' 1 () 1000 [], Register ''m1'' 7] initial))
     = [StartCombat ''m1'' 1]"
  by (simp add: run_def startSynchronizedCombat_def startCombat_def onCombatComplete_def
      onUpdate_def forceCombatEnd_def callbacksOf_def initial_def Let_def)

text \<open>
  C4, amended: for every mission with a stored session that is not complete, and
  whatever combat state the collaborator holds, \<^verbatim>\<open>forceCombatEnd\<close> archives a final result
  with \<open>victory = false\<close> and the health snapshot of that combat state (empty when there
  is none), deletes the session and the listener list, puts the mission into
  \<^verbatim>\<open>completedCombats\<close> and deletes its lock, and calls no listener. When the collaborator
  holds a combat state whose start time differs from the clock, the state produced is the
  one the handler produces for a terminal update carrying that combat state with
  \<open>victory = false\<close> in which no listener of the mission throws, except that the
  listeners are not called.
\<close>

theorem forced_end_like_defeat_without_notification:
  assumes "activeCombats s missionId = Some c" and "\<not> isComplete c"
  shows "activeCombats (forceCombatEnd missionId now combatState s) missionId = None \<and>
     missionCompletionCallbacks (forceCombatEnd missionId now combatState s) missionId = None \<and>
     missionId \<in> completedCombats (forceCombatEnd missionId now combatState s) \<and>
     missionId \<notin> combatLocks (forceCombatEnd missionId now combatState s) \<and>
     calls (forceCombatEnd missionId now combatState s) = calls s \<and>
     map_option fr_victory (getCombatResults (forceCombatEnd missionId now combatState s) missionId)
       = Some False \<and>
     map_option finalHealths (getCombatResults (forceCombatEnd missionId now combatState s) missionId)
       = Some (case combatState of None \<Rightarrow> Map.empty
               | Some endState \<Rightarrow> collectHealths (combatants endState)) \<and>
     (now \<noteq> startTime st \<and> set throwing \<inter> set (callbacksOf s missionId) = {} \<longrightarrow>
        forceCombatEnd missionId now (Some st) s =
          (fst (onUpdate missionId now (st\<lparr>victory := Some False\<rparr>) throwing s))\<lparr>calls := calls s\<rparr>)"
proof -
  have a: "activeCombats (forceCombatEnd missionId now combatState s) missionId = None \<and>
     missionCompletionCallbacks (forceCombatEnd missionId now combatState s) missionId = None \<and>
     missionId \<in> completedCombats (forceCombatEnd missionId now combatState s) \<and>
     missionId \<notin> combatLocks (forceCombatEnd missionId now combatState s) \<and>
     calls (forceCombatEnd missionId now combatState s) = calls s \<and>
     map_option fr_victory (getCombatResults (forceCombatEnd missionId now combatState s) missionId)
       = Some False \<and>
     map_option finalHealths (getCombatResults (forceCombatEnd missionId now combatState s) missionId)
       = Some (case combatState of None \<Rightarrow> Map.empty
               | Some endState \<Rightarrow> collectHealths (combatants endState))"
    using assms by (simp add: forceCombatEnd_def getCombatResults_def Let_def)
  have b: "forceCombatEnd missionId now (Some st) s =
          (fst (onUpdate missionId now (st\<lparr>victory := Some False\<rparr>) throwing s))\<lparr>calls := calls s\<rparr>"
    if n: "now \<noteq> startTime st" and t: "set throwing \<inter> set (callbacksOf s missionId) = {}"
  proof -
    have nt: "forEachCallback throwing False ((now - startTime st) / 1000) (callbacksOf s missionId) =
        (map (\<lambda>callback. Callback callback False ((now - startTime st) / 1000))
           (callbacksOf s missionId), False)"
      using t by (rule forEachCallback_no_throw)
    have v: "victory (st\<lparr>victory := Some False\<rparr>) = Some False" by simp
    from assms(1) v show ?thesis
    proof (cases rule: onUpdate_cases [where now = now and throwing = throwing])
      case (threw made)
      with nt show ?thesis by simp
    next
      case (returned made)
      show ?thesis unfolding returned(1) using assms n
        by (simp add: forceCombatEnd_def forcedDuration_def Let_def)
    qed
  qed
  from a b show ?thesis by blast
qed

theorem forced_end_like_defeat_without_notification_witness:
  "activeCombats (run [Start ''m1'' 1 () 1000 [], Register ''m1'' 7] initial) ''m1'' =
     Some \<lparr>combatAI = 1, mission = (), isComplete = False, actualDuration = 0, startedAt = 1000\<rparr> \<and>
   \<not> isComplete \<lparr>combatAI = 1, mission = (), isComplete = False, actualDuration = 0, startedAt = (1000 :: real)\<rparr> \<and>
   ''m1'' \<in> completedCombats (forceCombatEnd ''m1'' 5000 None
       (run [Start ''m1'' 1 () 1000 [], Register ''m1'' 7] initial)) \<and>
   ''m1'' \<notin> combatLocks (forceCombatEnd ''m1'' 5000 None
       (run [Start ''m1'' 1 () 1000 [], Register ''m1'' 7] initial)) \<and>
   forceCombatEnd ''m1'' 5000 (Some \<lparr>victory = None, startTime = 1000, combatants = [\<lparr>cid = ''a'', health = 12\<rparr>]\<rparr>)
       (run [Start ''m1'' 1 () 1000 [], Register ''m1'' 7] initial) =
     (fst (onUpdate ''m1'' 5000 \<lparr>victory = Some False, startTime = 1000, combatants = [\<lparr>cid = ''a'', health = 12\<rparr>]\<rparr> []
       (run [Start ''m1'' 1 () 1000 [], Register ''m1'' 7] initial)))
       \<lparr>calls := [StartCombat ''m1'' 1]\<rparr>"
proof -
  let ?s = "run [Start ''m1'' 1 () 1000 [], Register ''m1'' 7] (initial :: unit synchronizer)"
  let ?c = "\<lparr>combatAI = 1, mission = (), isComplete = False, actualDuration = 0, startedAt = (1000 :: real)\<rparr>"
  let ?st = "\<lparr>victory = None, startTime = 1000, combatants = [\<lparr>cid = ''a'', health = 12\<rparr>]\<rparr>"
  have h1: "activeCombats ?s ''m1'' = Some ?c"
    by (simp add: run_def startSynchronizedCombat_def startCombat_def onCombatComplete_def
        initial_def Let_def)
  have h2: "\<not> isComplete ?c" by simp
  have h3: "(5000 :: real) \<noteq> startTime ?st \<and> set ([] :: nat list) \<inter> set (callbacksOf ?s ''m1'') = {}"
    by simp
  have c: "calls ?s = [StartCombat ''m1'' 1]"
    by (simp add: run_def startSynchronizedCombat_def startCombat_def onCombatComplete_def
        initial_def Let_def)
  note t = forced_end_like_defeat_without_notification [OF h1 h2, of 5000 None ?st "[]"]
  from t h3 c have e: "forceCombatEnd ''m1'' 5000 (Some ?st) ?s =
     (fst (onUpdate ''m1'' 5000 \<lparr>victory = Some False, startTime = 1000, combatants = [\<lparr>cid = ''a'', health = 12\<rparr>]\<rparr> [] ?s))
       \<lparr>calls := [StartCombat ''m1'' 1]\<rparr>"
    by simp
  from t have d: "''m1'' \<in> completedCombats (forceCombatEnd ''m1'' 5000 None ?s)"
    and l: "''m1'' \<notin> combatLocks (forceCombatEnd ''m1'' 5000 None ?s)"
    by blast+
  from h1 h2 d l e show ?thesis by (intro conjI)
qed

section \<open>Properties of the combat formula\<close>




lemma clamp_range: "lo \<le> hi \<Longrightarrow> lo \<le> clamp v lo hi \<and> clamp v lo hi \<le> hi"
  by (simp add: clamp_def)

lemma clamp_Ints: "v \<in> \<int> \<Longrightarrow> lo \<in> \<int> \<Longrightarrow> hi \<in> \<int> \<Longrightarrow> clamp v lo hi \<in> \<int>"
  by (simp add: clamp_def max_def min_def)

lemma Math_round_Ints: "Math_round x \<in> \<int>"
  by (simp add: Math_round_def)

lemma travelMinutesOf_range:
  "9 \<le> travelMinutesOf mc squadMembers difficulty location subTerrain \<and>
   travelMinutesOf mc squadMembers difficulty location subTerrain \<le> 600 \<and>
   travelMinutesOf mc squadMembers difficulty location subTerrain \<in> \<int>"
  by (simp add: travelMinutesOf_def clamp_range clamp_Ints Math_round_Ints)

lemma calc_fields:
  "estimatedDuration (calculateUniversalCombatDuration mc nw squadMembers enemies difficulty location subTerrain) =
     adjustedCombatOf (squadDpsOf mc nw squadMembers) (enemyDpsOf nw enemies)
       (totalEnemyHealthOf enemies) difficulty +
     travelMinutesOf mc squadMembers difficulty location subTerrain * 60"
  "powerRatio (calculateUniversalCombatDuration mc nw squadMembers enemies difficulty location subTerrain) =
     powerRatioOf (squadDpsOf mc nw squadMembers) (enemyDpsOf nw enemies)"
  "squadDps (calculateUniversalCombatDuration mc nw squadMembers enemies difficulty location subTerrain) =
     squadDpsOf mc nw squadMembers"
  "enemyDps (calculateUniversalCombatDuration mc nw squadMembers enemies difficulty location subTerrain) =
     enemyDpsOf nw enemies"
  "totalEnemyHealth (calculateUniversalCombatDuration mc nw squadMembers enemies difficulty location subTerrain) =
     totalEnemyHealthOf enemies"
  "difficultyModifier (calculateUniversalCombatDuration mc nw squadMembers enemies difficulty location subTerrain) =
     difficultyMultiplierOf difficulty"
  "travelMinutes (calculateUniversalCombatDuration mc nw squadMembers enemies difficulty location subTerrain) =
     travelMinutesOf mc squadMembers difficulty location subTerrain"
  by (simp_all add: calculateUniversalCombatDuration_def Let_def)

subsection \<open>Travel time\<close>

text \<open>
  C8: for every difficulty that is not negative, every squad and all location and
  sub-terrain strings, \<open>travelMinutes\<close> is an integer between 9 and 600: it is the
  product of the base travel time, the terrain factor, the sub-terrain factor and the
  reduction floored at 0.6, rounded and then clamped to the interval from 9 to 600.
\<close>

theorem travel_minutes_in_range:
  assumes "0 \<le> difficulty"
  shows "travelMinutes (calculateUniversalCombatDuration mc nw squadMembers enemies difficulty location subTerrain) \<in> \<int> \<and>
     9 \<le> travelMinutes (calculateUniversalCombatDuration mc nw squadMembers enemies difficulty location subTerrain) \<and>
     travelMinutes (calculateUniversalCombatDuration mc nw squadMembers enemies difficulty location subTerrain) \<le> 600 \<and>
     travelMinutes (calculateUniversalCombatDuration mc nw squadMembers enemies difficulty location subTerrain) =
       clamp (Math_round ((30 + difficulty * 10) * terrainFactorOf location * subFactorOf subTerrain *
          max 0.6 (1 - (fst (avgCoreOf mc squadMembers) / 10) * 0.2
                     - (snd (avgCoreOf mc squadMembers) / 10) * 0.2))) 9 600"
proof -
  have "travelMinutesOf mc squadMembers difficulty location subTerrain =
       clamp (Math_round ((30 + difficulty * 10) * terrainFactorOf location * subFactorOf subTerrain *
          max 0.6 (1 - (fst (avgCoreOf mc squadMembers) / 10) * 0.2
                     - (snd (avgCoreOf mc squadMembers) / 10) * 0.2))) 9 600"
    by (simp add: travelMinutesOf_def travelProductOf_def Let_def split_beta)
  with travelMinutesOf_range [of mc squadMembers difficulty location subTerrain]
  show ?thesis by (simp add: calc_fields)
qed

text \<open>Values of the parts of the formula at the inputs used below.\<close>

lemma terrainFactorOf_Valley: "terrainFactorOf ''Valley'' = 14 / 10"
  by code_simp

lemma subFactorOf_Tunnel: "subFactorOf (Some ''Old Tunnel'') = 14 / 10"
  by code_simp




lemma avgCoreOf_examples:
  "avgCoreOf mc [] = (5, 5)"
  "avgCoreOf levelTenStats [unarmedMember] = (5, 5)"
  by (simp_all add: avgCoreOf_def levelTenStats_def)

theorem travel_minutes_in_range_witness:
  "(0 :: real) \<le> 1 \<and>
   travelMinutes (calculateUniversalCombatDuration levelTenStats noWeapons [unarmedMember] []
      1 ''Valley'' (Some ''Old Tunnel'')) = 63"
proof -
  have h: "(0 :: real) \<le> 1" by simp
  from travel_minutes_in_range [OF h, of levelTenStats noWeapons "[unarmedMember]" "[]"
      "''Valley''" "Some ''Old Tunnel''"]
  have "travelMinutes (calculateUniversalCombatDuration levelTenStats noWeapons [unarmedMember] []
      1 ''Valley'' (Some ''Old Tunnel'')) =
       clamp (Math_round ((30 + 1 * 10) * terrainFactorOf ''Valley'' * subFactorOf (Some ''Old Tunnel'') *
          max 0.6 (1 - (fst (avgCoreOf levelTenStats [unarmedMember]) / 10) * 0.2
                     - (snd (avgCoreOf levelTenStats [unarmedMember]) / 10) * 0.2))) 9 600"
    by (elim conjE)
  then show ?thesis using h
    by (simp add: terrainFactorOf_Valley subFactorOf_Tunnel avgCoreOf_examples Math_round_def clamp_def)
qed

subsection \<open>Power ratio correction\<close>




end
